theory Spec2Isabelle
  imports Complex_Main "HOL-Library.Word"
begin

section \<open>JavaScript strings\<close>

text \<open>
  A JavaScript string is a sequence of 16-bit code units; \<open>length\<close> counts code units.
  ASCII literals of the source are written \<open>ascii ''...''\<close>; the currency symbol of
  \<open>CONFIG.SETTINGS.CURRENCY_SYMBOL\<close> is the single code unit U+20AC.
\<close>

type_synonym jschar = "16 word"
type_synonym jsstring = "jschar list"

definition ascii :: "string \<Rightarrow> jsstring" where
  "ascii s = map (\<lambda>c. of_nat (of_char c)) s"

definition isDigit :: "jschar \<Rightarrow> bool" where
  "isDigit c = (0x30 \<le> c \<and> c \<le> 0x39)"

section \<open>Regular expressions of the source\<close>

text \<open>
  The two patterns of the program, \<open>/^[0-9]{16}$/\<close> and \<open>/\D/g\<close>, use character
  classes, a counted repetition, the two anchors and concatenation. The matcher follows
  ECMAScript's: it runs from a position of the input (the number of code units before
  it, and the code units from it on) and yields the position after the match. Without
  the \<open>m\<close> flag \<open>^\<close> holds at position 0 only and \<open>$\<close> at the end of the input only.
  The fragment has no alternation and no open-ended quantifier, so a match from a
  position is unique and no backtracking is needed.
\<close>

datatype regex =
    CharRange jschar jschar
  | NonDigit
  | Exactly regex nat
  | AssertStart
  | AssertEnd
  | Seq regex regex

type_synonym position = "nat \<times> jsstring"

fun repeated :: "(position \<Rightarrow> position option) \<Rightarrow> nat \<Rightarrow> position \<Rightarrow> position option" where
  "repeated m 0 p = Some p"
| "repeated m (Suc n) p = (case m p of None \<Rightarrow> None | Some p' \<Rightarrow> repeated m n p')"

fun rmatch :: "regex \<Rightarrow> position \<Rightarrow> position option" where
  "rmatch (CharRange lo hi) (i, []) = None"
| "rmatch (CharRange lo hi) (i, c # cs) =
     (if lo \<le> c \<and> c \<le> hi then Some (Suc i, cs) else None)"
| "rmatch NonDigit (i, []) = None"
| "rmatch NonDigit (i, c # cs) = (if isDigit c then None else Some (Suc i, cs))"
| "rmatch (Exactly r n) p = repeated (rmatch r) n p"
| "rmatch AssertStart (i, cs) = (if i = 0 then Some (i, cs) else None)"
| "rmatch AssertEnd (i, cs) = (if cs = [] then Some (i, cs) else None)"
| "rmatch (Seq r1 r2) p = (case rmatch r1 p of None \<Rightarrow> None | Some p' \<Rightarrow> rmatch r2 p')"

text \<open>
  \<open>RegExp.prototype.test\<close> of a pattern without the \<open>g\<close> and \<open>y\<close> flags: the match is
  tried from position 0, then from each later position up to the end of the input.
\<close>

fun search :: "regex \<Rightarrow> position \<Rightarrow> bool" where
  "search r (i, []) = (rmatch r (i, []) \<noteq> None)"
| "search r (i, c # cs) = (rmatch r (i, c # cs) \<noteq> None \<or> search r (Suc i, cs))"

definition test :: "regex \<Rightarrow> jsstring \<Rightarrow> bool" where
  "test r s = search r (0, s)"

text \<open>
  Every match of the fragment ends where it started or later, and consumes exactly the
  code units between the two positions.
\<close>

lemma repeated_consumes:
  assumes "\<And>p p'. m p = Some p' \<Longrightarrow> fst p' + length (snd p') = fst p + length (snd p)"
  shows "repeated m n p = Some p' \<Longrightarrow> fst p' + length (snd p') = fst p + length (snd p)"
proof (induction n arbitrary: p)
  case 0
  then show ?case by simp
next
  case (Suc n)
  then obtain q where q: "m p = Some q" and rest: "repeated m n q = Some p'"
    by (auto split: option.splits)
  from Suc.IH [OF rest] assms [OF q] show ?case by simp
qed

lemma rmatch_consumes:
  "rmatch r p = Some p' \<Longrightarrow> fst p' + length (snd p') = fst p + length (snd p)"
proof (induction r arbitrary: p p')
  case (CharRange lo hi)
  then show ?case by (cases p; cases "snd p") (auto split: if_splits)
next
  case NonDigit
  then show ?case by (cases p; cases "snd p") (auto split: if_splits)
next
  case (Exactly r n)
  from Exactly.prems have "repeated (rmatch r) n p = Some p'" by simp
  then show ?case by (rule repeated_consumes [rotated]) (rule Exactly.IH)
next
  case AssertStart
  then show ?case by (cases p) (auto split: if_splits)
next
  case AssertEnd
  then show ?case by (cases p) (auto split: if_splits)
next
  case (Seq r1 r2)
  then obtain q where q: "rmatch r1 p = Some q" and rest: "rmatch r2 q = Some p'"
    by (auto split: option.splits)
  from Seq.IH(1) [OF q] Seq.IH(2) [OF rest] show ?case by simp
qed

text \<open>
  \<open>String.prototype.replace\<close> with a pattern that has the \<open>g\<close> flag and a replacement
  string without \<open>$\<close> patterns: the input is scanned from left to right, every match is
  replaced, the code units between matches are kept, and after an empty match the scan
  moves on by one code unit.
\<close>

function replaceGlobal :: "regex \<Rightarrow> jsstring \<Rightarrow> position \<Rightarrow> jsstring" where
  "replaceGlobal r rep (i, cs) =
     (case rmatch r (i, cs) of
        Some (j, cs') \<Rightarrow>
          if i < j then rep @ replaceGlobal r rep (j, cs')
          else rep @ (case cs of [] \<Rightarrow> [] | c # cs'' \<Rightarrow> c # replaceGlobal r rep (Suc i, cs''))
      | None \<Rightarrow> (case cs of [] \<Rightarrow> [] | c # cs'' \<Rightarrow> c # replaceGlobal r rep (Suc i, cs'')))"
  by pat_completeness auto
termination
proof (relation "measure (\<lambda>(r, rep, i, cs). length cs)")
  fix r :: regex and rep :: jsstring and i j :: nat and cs cs' :: jsstring and x2 :: position
  assume "rmatch r (i, cs) = Some x2" and "(j, cs') = x2" and "i < j"
  then have "j + length cs' = i + length cs"
    using rmatch_consumes [of r "(i, cs)" x2] by auto
  with \<open>i < j\<close> show "((r, rep, j, cs'), (r, rep, i, cs)) \<in> measure (\<lambda>(r, rep, i, cs). length cs)"
    by simp
qed simp_all

declare replaceGlobal.simps [simp del]

definition replace :: "jsstring \<Rightarrow> regex \<Rightarrow> jsstring \<Rightarrow> jsstring" where
  "replace s r rep = replaceGlobal r rep (0, s)"

section \<open>Values, errors and the host\<close>

text \<open>
  The values the program handles: the configuration object, and what \<open>JSON.parse\<close> yields
  for a response body. A finite Number is its exact rational value; a property list keeps
  the order of the source.
\<close>

datatype jsval =
    JUndefined
  | JNull
  | JBool bool
  | JNumber rat
  | JString jsstring
  | JArray "jsval list"
  | JObject "(jsstring \<times> jsval) list"
  | JRegExp regex

datatype js_error =
    TypeError jsstring
  | SyntaxError jsstring
  | Error jsstring

fun message :: "js_error \<Rightarrow> jsstring" where
  "message (TypeError m) = m"
| "message (SyntaxError m) = m"
| "message (Error m) = m"

text \<open>
  What the browser and the JavaScript engine decide, and the source does not: the text of
  the engine's own error messages, the conversions of ECMAScript that the program only
  reaches on malformed data, whether the device has a camera interface
  (\<open>navigator.mediaDevices.getUserMedia\<close>) and whether the decoding engine's \<open>stop\<close> throws.
\<close>

record host =
  numberToString :: "rat \<Rightarrow> jsstring"
  objectToString :: "jsval \<Rightarrow> jsstring"
  readOfNullish :: "jsval \<Rightarrow> jsstring \<Rightarrow> jsstring"
  nonNumberToFixed :: "jsval \<Rightarrow> jsstring"
  cameraAvailable :: bool
  quaggaStopThrows :: bool

text \<open>
  Reading a property: on \<open>undefined\<close> and \<open>null\<close> a TypeError, on an object the own property or
  \<open>undefined\<close>. Inherited properties are not modelled: none of the names the program reads
  (\<open>result\<close>, \<open>status\<close>, \<open>data\<close>, \<open>message\<close>, \<open>availableMoneyMinor\<close>, \<open>startingBudgetMinor\<close>,
  \<open>ENV_NAMES\<close>, \<open>CURRENT_ENV\<close>) is a property of a built-in prototype.
\<close>

fun getProp :: "host \<Rightarrow> jsval \<Rightarrow> jsstring \<Rightarrow> js_error + jsval" where
  "getProp h JUndefined p = Inl (TypeError (readOfNullish h JUndefined p))"
| "getProp h JNull p = Inl (TypeError (readOfNullish h JNull p))"
| "getProp h (JObject kvs) p = Inr (case map_of kvs p of Some v \<Rightarrow> v | None \<Rightarrow> JUndefined)"
| "getProp h v p = Inr JUndefined"

fun toBoolean :: "jsval \<Rightarrow> bool" where
  "toBoolean JUndefined = False"
| "toBoolean JNull = False"
| "toBoolean (JBool b) = b"
| "toBoolean (JNumber x) = (x \<noteq> 0)"
| "toBoolean (JString s) = (s \<noteq> [])"
| "toBoolean v = True"

fun toString :: "host \<Rightarrow> jsval \<Rightarrow> jsstring" where
  "toString h JUndefined = ascii ''undefined''"
| "toString h JNull = ascii ''null''"
| "toString h (JBool b) = (if b then ascii ''true'' else ascii ''false'')"
| "toString h (JNumber x) = numberToString h x"
| "toString h (JString s) = s"
| "toString h v = objectToString h v"

section \<open>Numbers\<close>

text \<open>
  \<open>amountInCents / 100\<close> is a division of IEEE 754 binary64 values: the exact quotient,
  rounded to the nearest value with a 53-bit significand, ties to the even significand,
  with the exponent of the subnormal range as the least one. A quotient by 100 of a
  finite value never overflows.
\<close>

function bitlen :: "int \<Rightarrow> int" where
  "bitlen n = (if n \<le> 0 then 0 else 1 + bitlen (n div 2))"
  by pat_completeness auto
termination
  by (relation "measure nat") auto

declare bitlen.simps [simp del]

definition pow2 :: "int \<Rightarrow> rat" where
  "pow2 e = (if 0 \<le> e then 2 ^ nat e else 1 / 2 ^ nat (- e))"

definition ilog2 :: "rat \<Rightarrow> int" where
  "ilog2 a = (if 1 \<le> a then bitlen \<lfloor>a\<rfloor> - 1 else - bitlen (\<lceil>1 / a\<rceil> - 1))"

definition roundHalfEven :: "rat \<Rightarrow> int" where
  "roundHalfEven y =
     (let f = \<lfloor>y\<rfloor>; r = y - of_int f
      in if r < 1 / 2 then f else if 1 / 2 < r then f + 1 else if even f then f else f + 1)"

definition roundToDouble :: "rat \<Rightarrow> rat" where
  "roundToDouble q =
     (if q = 0 then 0
      else let a = \<bar>q\<bar>; e = max (ilog2 a - 52) (- 1074)
           in sgn q * of_int (roundHalfEven (a / pow2 e)) * pow2 e)"

definition divideBy100 :: "rat \<Rightarrow> rat" where
  "divideBy100 x = roundToDouble (x / 100)"

definition digitChar :: "int \<Rightarrow> jschar" where
  "digitChar d = of_int (48 + d)"

function digitsOf :: "int \<Rightarrow> jsstring" where
  "digitsOf n = (if n < 10 then [digitChar n] else digitsOf (n div 10) @ [digitChar (n mod 10)])"
  by pat_completeness auto
termination
  by (relation "measure nat") auto

declare digitsOf.simps [simp del]

text \<open>
  \<open>Number.prototype.toFixed(f)\<close> on a finite value, \<open>f\<close> between 0 and 100: the sign first;
  from \<open>10 ^ 21\<close> on the result is that of \<open>ToString\<close>; below, the integer \<open>n\<close> with
  \<open>n / 10 ^ f\<close> nearest to the value (the larger one of two), its decimal digits padded
  with zeros to \<open>f + 1\<close> digits, and a point before the last \<open>f\<close>.
\<close>

definition toFixed :: "host \<Rightarrow> nat \<Rightarrow> rat \<Rightarrow> jsstring" where
  "toFixed h f x0 =
     (let s = (if x0 < 0 then [0x2D] else []);
          x = (if x0 < 0 then - x0 else x0)
      in if 10 ^ 21 \<le> x then s @ numberToString h x
         else
           let n = \<lfloor>x * 10 ^ f + 1 / 2\<rfloor>;
               m = digitsOf n;
               m = (if f \<noteq> 0
                    then let k = length m;
                             m = (if k \<le> f then replicate (f + 1 - k) 0x30 @ m else m);
                             k = (if k \<le> f then f + 1 else k)
                         in take (k - f) m @ [0x2E] @ drop (k - f) m
                    else m)
           in s @ m)"

section \<open>Configuration module\<close>

definition BARCODE_LENGTH :: nat where
  "BARCODE_LENGTH = 16"

definition BARCODE_PATTERN :: regex where
  "BARCODE_PATTERN = Seq AssertStart (Seq (Exactly (CharRange 0x30 0x39) 16) AssertEnd)"

definition CURRENCY_SYMBOL :: jsstring where
  "CURRENCY_SYMBOL = [0x20AC]"

definition SCANNER_TIMEOUT :: nat where
  "SCANNER_TIMEOUT = 30000"

definition CONFIG :: jsval where
  "CONFIG = JObject
     [(ascii ''SETTINGS'', JObject
        [(ascii ''BARCODE_LENGTH'', JNumber 16),
         (ascii ''BARCODE_PATTERN'', JRegExp BARCODE_PATTERN),
         (ascii ''CURRENCY'', JString (ascii ''EUR'')),
         (ascii ''CURRENCY_SYMBOL'', JString CURRENCY_SYMBOL),
         (ascii ''SCANNER_TIMEOUT'', JNumber 30000),
         (ascii ''DEBUG'', JBool True)])]"

text \<open>
  \<open>CONFIG.ENV_NAMES[CONFIG.CURRENT_ENV] || 'Unknown'\<close>, for a configuration object given as
  a parameter and for the \<open>CONFIG\<close> of the source.
\<close>

definition environmentNameOf :: "host \<Rightarrow> jsval \<Rightarrow> js_error + jsval" where
  "environmentNameOf h config =
     (case getProp h config (ascii ''ENV_NAMES'') of
        Inl e \<Rightarrow> Inl e
      | Inr names \<Rightarrow>
          (case getProp h config (ascii ''CURRENT_ENV'') of
             Inl e \<Rightarrow> Inl e
           | Inr env \<Rightarrow>
               (case getProp h names (toString h env) of
                  Inl e \<Rightarrow> Inl e
                | Inr label \<Rightarrow> Inr (if toBoolean label then label else JString (ascii ''Unknown'')))))"

definition getCurrentEnvironmentName :: "host \<Rightarrow> js_error + jsval" where
  "getCurrentEnvironmentName h = environmentNameOf h CONFIG"

definition isValidBarcode :: "jsstring \<Rightarrow> bool" where
  "isValidBarcode barcode = test BARCODE_PATTERN barcode"

definition formatCurrency :: "host \<Rightarrow> rat \<Rightarrow> jsstring" where
  "formatCurrency h amountInCents =
     (let amount = divideBy100 amountInCents
      in CURRENCY_SYMBOL @ toFixed h 2 amount)"

text \<open>
  The amount in minor units divided by 100 and rendered with exactly two decimal places,
  as the spec words it, in decimal notation: the sign, the whole units, a point and the
  two digits of the hundredths.
\<close>

definition twoDecimalPlaces :: "int \<Rightarrow> jsstring" where
  "twoDecimalPlaces n =
     (if n < 0 then [0x2D] else []) @ digitsOf (\<bar>n\<bar> div 100)
       @ [0x2E, digitChar (\<bar>n\<bar> mod 100 div 10), digitChar (\<bar>n\<bar> mod 10)]"

text \<open>
  \<open>formatCurrency\<close> on any value of a response: a Number is formatted as above; for
  another value the conversion to a Number and its formatting are the host's.
\<close>

definition formatCurrencyOf :: "host \<Rightarrow> jsval \<Rightarrow> jsstring" where
  "formatCurrencyOf h v =
     (case v of JNumber x \<Rightarrow> formatCurrency h x | _ \<Rightarrow> CURRENCY_SYMBOL @ nonNumberToFixed h v)"

section \<open>The page: timers, requests and the state of the three classes\<close>

text \<open>
  The callbacks of \<open>setTimeout\<close> in the source: the automatic lookup 500 ms after the 16th
  digit, the clean-up after a paste, the automatic hiding of an error after 5000 ms, and
  the scan timeout.
\<close>

datatype timer_task = AutoLookup | PasteCleanup | ErrorAutoHide | ScanTimeout

record request =
  url :: jsstring
  httpMethod :: jsstring
  contentType :: jsstring
  body :: "jsstring option"

text \<open>
  One record holds the state of the page. The decoding engine (Quagga) is external: of
  it the state keeps whether it runs, how many detection handlers are subscribed and how
  many \<open>Quagga.init\<close> calls still owe their callback. \<open>BarcodeScanner\<close>: \<open>isScanning\<close>,
  \<open>scannerInitialized\<close> and the two callback slots. \<open>ScannerManager\<close>: the modal (\<open>None\<close> while
  the field is \<open>null\<close>, else whether it has the class \<open>hidden\<close>), \<open>onScanComplete\<close> and
  \<open>scanTimeout\<close>. \<open>CommunityCardApp\<close>: the input, the buttons, the three sections, the display
  nodes (\<open>None\<close> when the page has no such node), \<open>isLookingUp\<close> and \<open>currentBarcode\<close>.
  Each callback slot is written at one place of the source, always with the same
  function, so a slot is a flag: \<open>onScanResult\<close> is \<open>ScannerManager.handleScanResult\<close>,
  \<open>onScanError\<close> is \<open>ScannerManager.handleScanError\<close>, \<open>onScanComplete\<close> is the function of
  \<open>handleScanButtonClick\<close>. \<open>surfaced\<close> lists the codes \<open>onScanResult\<close> was called with,
  \<open>requests\<close> the calls of \<open>fetch\<close>, and \<open>inFlight\<close> counts those not settled yet. The
  flash button and the output to the console are not modelled.
\<close>

record world =
  quaggaRunning :: bool
  quaggaHandlers :: nat
  pendingInits :: nat
  isScanning :: bool
  scannerInitialized :: bool
  onScanResult :: bool
  onScanError :: bool
  surfaced :: "jsstring list"
  modalHidden :: "bool option"
  onScanComplete :: bool
  scanTimeout :: "nat option"
  timers :: "(nat \<times> nat \<times> timer_task) list"
  timerCount :: nat
  inputValue :: jsstring
  inputDisabled :: bool
  inputFocused :: bool
  lookupDisabled :: bool
  scanDisabled :: bool
  buttonText :: "jsstring option"
  buttonIcon :: "jsstring option"
  loadingHidden :: bool
  errorHidden :: bool
  successHidden :: bool
  errorMessage :: "jsstring option"
  availableBalance :: "jsstring option"
  monthlyBudget :: "jsstring option"
  isLookingUp :: bool
  currentBarcode :: "jsstring option"
  requests :: "request list"
  inFlight :: nat

subsection \<open>Timers\<close>

text \<open>Timer ids are positive, so a stored id is truthy.\<close>

definition setTimeout :: "timer_task \<Rightarrow> nat \<Rightarrow> world \<Rightarrow> nat \<times> world" where
  "setTimeout task delay w =
     (let t = Suc (timerCount w)
      in (t, w\<lparr>timers := timers w @ [(t, delay, task)], timerCount := t\<rparr>))"

definition clearTimeout :: "nat \<Rightarrow> world \<Rightarrow> world" where
  "clearTimeout t w = w\<lparr>timers := filter (\<lambda>x. fst x \<noteq> t) (timers w)\<rparr>"

subsection \<open>BarcodeScanner.stop and ScannerManager.closeScannerModal\<close>

definition stop :: "host \<Rightarrow> world \<Rightarrow> world" where
  "stop h w =
     (let w1 = (if isScanning w
                then if quaggaStopThrows h then w
                     else w\<lparr>quaggaRunning := False, isScanning := False\<rparr>
                else w)
      in w1\<lparr>quaggaHandlers := 0, scannerInitialized := False\<rparr>)"

definition closeScannerModal :: "host \<Rightarrow> world \<Rightarrow> world" where
  "closeScannerModal h w =
     (let w1 = (case modalHidden w of None \<Rightarrow> w | Some _ \<Rightarrow> w\<lparr>modalHidden := Some True\<rparr>);
          w2 = stop h w1
      in case scanTimeout w2 of
           None \<Rightarrow> w2
         | Some t \<Rightarrow> (clearTimeout t w2)\<lparr>scanTimeout := None\<rparr>)"

subsection \<open>CommunityCardApp: sections, lookup state, messages\<close>

definition hideAllSections :: "world \<Rightarrow> world" where
  "hideAllSections w = w\<lparr>loadingHidden := True, errorHidden := True, successHidden := True\<rparr>"

definition showLoading :: "world \<Rightarrow> world" where
  "showLoading w = (hideAllSections w)\<lparr>loadingHidden := False\<rparr>"

definition hideLoading :: "world \<Rightarrow> world" where
  "hideLoading w = w\<lparr>loadingHidden := True\<rparr>"

definition setLookupState :: "bool \<Rightarrow> world \<Rightarrow> world" where
  "setLookupState b w =
     (let w1 = w\<lparr>isLookingUp := b, lookupDisabled := b, scanDisabled := b, inputDisabled := b\<rparr>
      in if b
         then showLoading
                (w1\<lparr>buttonText := map_option (\<lambda>_. ascii ''Checking...'') (buttonText w1),
                    buttonIcon := map_option (\<lambda>_. ascii ''hourglass_empty'') (buttonIcon w1)\<rparr>)
         else hideLoading
                (w1\<lparr>buttonText := map_option (\<lambda>_. ascii ''Check Balance'') (buttonText w1),
                    buttonIcon := map_option (\<lambda>_. ascii ''search'') (buttonIcon w1)\<rparr>))"

definition showError :: "jsstring \<Rightarrow> world \<Rightarrow> world" where
  "showError msg w =
     (let w1 = hideAllSections w;
          w2 = w1\<lparr>errorMessage := map_option (\<lambda>_. msg) (errorMessage w1)\<rparr>;
          w3 = w2\<lparr>errorHidden := False\<rparr>
      in snd (setTimeout ErrorAutoHide 5000 w3))"

text \<open>
  \<open>if (node) node.textContent = formatCurrency(data.field)\<close>: the new text of a display node,
  \<open>None\<close> for a node the page does not have; reading the field of \<open>undefined\<close> or \<open>null\<close>
  throws.
\<close>

definition renderAmount :: "host \<Rightarrow> jsval \<Rightarrow> jsstring \<Rightarrow> jsstring option \<Rightarrow> js_error + jsstring option" where
  "renderAmount h data field node =
     (case node of
        None \<Rightarrow> Inr None
      | Some _ \<Rightarrow>
          (case getProp h data field of
             Inl e \<Rightarrow> Inl e
           | Inr v \<Rightarrow> Inr (Some (formatCurrencyOf h v))))"

definition showSuccess :: "host \<Rightarrow> jsval \<Rightarrow> world \<Rightarrow> js_error option \<times> world" where
  "showSuccess h data w =
     (let w1 = hideAllSections w
      in case renderAmount h data (ascii ''availableMoneyMinor'') (availableBalance w1) of
           Inl e \<Rightarrow> (Some e, w1)
         | Inr a \<Rightarrow>
             (let w2 = w1\<lparr>availableBalance := a\<rparr>
              in case renderAmount h data (ascii ''startingBudgetMinor'') (monthlyBudget w2) of
                   Inl e \<Rightarrow> (Some e, w2)
                 | Inr m \<Rightarrow> (None, w2\<lparr>monthlyBudget := m, successHidden := False\<rparr>)))"

definition resetResults :: "world \<Rightarrow> world" where
  "resetResults w = (hideAllSections w)\<lparr>currentBarcode := None\<rparr>"

definition resetUI :: "world \<Rightarrow> world" where
  "resetUI w = (setLookupState False (hideAllSections w))\<lparr>currentBarcode := None\<rparr>"

definition clearBarcode :: "world \<Rightarrow> world" where
  "clearBarcode w = (resetResults (w\<lparr>inputValue := []\<rparr>))\<lparr>inputFocused := True\<rparr>"

subsection \<open>The balance lookup\<close>

text \<open>
  \<open>JSON.stringify\<close>: \<open>QuoteJSONString\<close> with its escapes (a surrogate pair is kept, a lone
  surrogate is escaped), and the serialisation of a value; \<open>None\<close> is \<open>undefined\<close>.
\<close>

definition hexChar :: "jschar \<Rightarrow> jschar" where
  "hexChar d = (if d < 10 then 48 + d else 87 + d)"

definition unicodeEscape :: "jschar \<Rightarrow> jsstring" where
  "unicodeEscape c =
     [0x5C, 0x75, hexChar (drop_bit 12 c), hexChar (take_bit 4 (drop_bit 8 c)),
      hexChar (take_bit 4 (drop_bit 4 c)), hexChar (take_bit 4 c)]"

definition isLeadSurrogate :: "jschar \<Rightarrow> bool" where
  "isLeadSurrogate c = (0xD800 \<le> c \<and> c \<le> 0xDBFF)"

definition isTrailSurrogate :: "jschar \<Rightarrow> bool" where
  "isTrailSurrogate c = (0xDC00 \<le> c \<and> c \<le> 0xDFFF)"

definition escapeUnit :: "jschar \<Rightarrow> jsstring" where
  "escapeUnit c =
     (if c = 0x08 then [0x5C, 0x62]
      else if c = 0x09 then [0x5C, 0x74]
      else if c = 0x0A then [0x5C, 0x6E]
      else if c = 0x0C then [0x5C, 0x66]
      else if c = 0x0D then [0x5C, 0x72]
      else if c = 0x22 then [0x5C, 0x22]
      else if c = 0x5C then [0x5C, 0x5C]
      else if c < 0x20 then unicodeEscape c
      else [c])"

fun quoteUnits :: "jsstring \<Rightarrow> jsstring" where
  "quoteUnits [] = []"
| "quoteUnits [c] =
     (if isLeadSurrogate c \<or> isTrailSurrogate c then unicodeEscape c else escapeUnit c)"
| "quoteUnits (c # d # cs) =
     (if isLeadSurrogate c
      then if isTrailSurrogate d then c # d # quoteUnits cs
           else unicodeEscape c @ quoteUnits (d # cs)
      else if isTrailSurrogate c then unicodeEscape c @ quoteUnits (d # cs)
      else escapeUnit c @ quoteUnits (d # cs))"

definition quoteJSONString :: "jsstring \<Rightarrow> jsstring" where
  "quoteJSONString s = [0x22] @ quoteUnits s @ [0x22]"

fun joinWith :: "jsstring \<Rightarrow> jsstring list \<Rightarrow> jsstring" where
  "joinWith sep [] = []"
| "joinWith sep [x] = x"
| "joinWith sep (x # y # ys) = x @ sep @ joinWith sep (y # ys)"

fun jsonStringify :: "host \<Rightarrow> jsval \<Rightarrow> jsstring option"
  and stringifyElements :: "host \<Rightarrow> jsval list \<Rightarrow> jsstring list"
  and stringifyProperties :: "host \<Rightarrow> (jsstring \<times> jsval) list \<Rightarrow> jsstring list" where
  "jsonStringify h JUndefined = None"
| "jsonStringify h JNull = Some (ascii ''null'')"
| "jsonStringify h (JBool b) = Some (if b then ascii ''true'' else ascii ''false'')"
| "jsonStringify h (JNumber x) = Some (numberToString h x)"
| "jsonStringify h (JString s) = Some (quoteJSONString s)"
| "jsonStringify h (JArray vs) = Some (ascii ''['' @ joinWith (ascii '','') (stringifyElements h vs) @ ascii '']'')"
| "jsonStringify h (JObject kvs) =
     Some (ascii ''{'' @ joinWith (ascii '','') (stringifyProperties h kvs) @ ascii ''}'')"
| "jsonStringify h (JRegExp r) = Some (ascii ''{}'')"
| "stringifyElements h [] = []"
| "stringifyElements h (v # vs) =
     (case jsonStringify h v of None \<Rightarrow> ascii ''null'' | Some t \<Rightarrow> t) # stringifyElements h vs"
| "stringifyProperties h [] = []"
| "stringifyProperties h ((k, v) # kvs) =
     (case jsonStringify h v of
        None \<Rightarrow> stringifyProperties h kvs
      | Some t \<Rightarrow> (quoteJSONString k @ ascii '':'' @ t) # stringifyProperties h kvs)"

text \<open>
  \<open>getCardBalance\<close> is asynchronous. Up to its first \<open>await\<close> it builds the request and calls
  \<open>fetch\<close>; it goes on when the request settles. The outcome of a request is the host's:
  the promise of \<open>fetch\<close> is rejected, or there is a response and \<open>response.json()\<close> is
  rejected, or the body parses to a value.
\<close>

datatype fetch_outcome =
    FetchRejected js_error
  | BodyNotJson js_error
  | BodyJson jsval

definition getCardBalanceRequest :: "host \<Rightarrow> jsstring \<Rightarrow> request" where
  "getCardBalanceRequest h barcode =
     \<lparr>url = ascii ''https://europe-west1-community-card-dev.cloudfunctions.net/getCardBalance'',
      httpMethod = ascii ''POST'',
      contentType = ascii ''application/json'',
      body = jsonStringify h (JObject [(ascii ''data'', JObject [(ascii ''barcode'', JString barcode)])])\<rparr>"

definition fetch :: "request \<Rightarrow> world \<Rightarrow> world" where
  "fetch req w = w\<lparr>requests := requests w @ [req], inFlight := Suc (inFlight w)\<rparr>"

definition getCardBalanceResult :: "host \<Rightarrow> fetch_outcome \<Rightarrow> js_error + jsval" where
  "getCardBalanceResult h outcome =
     (case outcome of
        FetchRejected e \<Rightarrow> Inl e
      | BodyNotJson e \<Rightarrow> Inl e
      | BodyJson res \<Rightarrow> getProp h res (ascii ''result''))"

text \<open>\<open>String.prototype.trim\<close>: white space and line terminators of ECMAScript.\<close>

definition isWhiteSpace :: "jschar \<Rightarrow> bool" where
  "isWhiteSpace c =
     (c \<in> {0x09, 0x0A, 0x0B, 0x0C, 0x0D, 0x20, 0xA0, 0x1680, 0x2028, 0x2029, 0x202F, 0x205F,
            0x3000, 0xFEFF}
      \<or> (0x2000 \<le> c \<and> c \<le> 0x200A))"

definition trim :: "jsstring \<Rightarrow> jsstring" where
  "trim s = rev (dropWhile isWhiteSpace (rev (dropWhile isWhiteSpace s)))"

text \<open>
  \<open>performLookup\<close> up to its \<open>await\<close>: the two checks of the input, the guard on
  \<open>isLookingUp\<close>, then the loading state and the request.
\<close>

definition performLookup :: "host \<Rightarrow> world \<Rightarrow> world" where
  "performLookup h w =
     (let barcode = trim (inputValue w)
      in if barcode = []
         then (showError (ascii ''Please enter a barcode'') w)\<lparr>inputFocused := True\<rparr>
         else if \<not> isValidBarcode barcode
         then (showError (ascii ''Please enter a valid 16-digit barcode'') w)\<lparr>inputFocused := True\<rparr>
         else if isLookingUp w then w
         else let w1 = setLookupState True w;
                  w2 = w1\<lparr>currentBarcode := Some barcode\<rparr>
              in fetch (getCardBalanceRequest h barcode) w2)"

text \<open>The \<open>switch\<close> on \<open>result.status\<close>; an exception leaves the state as it was when thrown.\<close>

definition handleResult :: "host \<Rightarrow> jsval \<Rightarrow> world \<Rightarrow> js_error option \<times> world" where
  "handleResult h result w =
     (case getProp h result (ascii ''status'') of
        Inl e \<Rightarrow> (Some e, w)
      | Inr status \<Rightarrow>
          if status = JString (ascii ''success'')
          then (case getProp h result (ascii ''data'') of
                  Inl e \<Rightarrow> (Some e, w)
                | Inr data \<Rightarrow> showSuccess h data w)
          else if status = JString (ascii ''card_not_found'')
          then (None, showError (ascii ''Card not found. Please check the barcode and try again.'') w)
          else if status = JString (ascii ''error'')
          then (case getProp h result (ascii ''message'') of
                  Inl e \<Rightarrow> (Some e, w)
                | Inr m \<Rightarrow>
                    (None, showError
                       (toString h (if toBoolean m then m
                                    else JString (ascii ''An error occurred while checking the card''))) w))
          else (None, showError (ascii ''Unexpected response from server'') w))"

text \<open>
  \<open>performLookup\<close> from its \<open>await\<close> on, run when a request settles: the result or the
  exception of \<open>getCardBalance\<close>, the \<open>catch\<close> block, the \<open>finally\<close> block.
\<close>

definition lookupSettles :: "host \<Rightarrow> fetch_outcome \<Rightarrow> world \<Rightarrow> world" where
  "lookupSettles h outcome w =
     (if inFlight w = 0 then w
      else
        let w0 = w\<lparr>inFlight := inFlight w - 1\<rparr>;
            r = (case getCardBalanceResult h outcome of
                   Inl e \<Rightarrow> (Some e, w0)
                 | Inr result \<Rightarrow> handleResult h result w0);
            w2 = (case fst r of
                    None \<Rightarrow> snd r
                  | Some e \<Rightarrow> showError (ascii ''Network error: '' @ message e) (snd r))
        in setLookupState False w2)"

subsection \<open>Scan results\<close>

text \<open>
  The function \<open>handleScanButtonClick\<close> passes to \<open>openScannerModal\<close>, called with a barcode
  or with an error; then \<open>ScannerManager.handleScanResult\<close> and \<open>handleScanError\<close>, and
  \<open>BarcodeScanner.handleDetection\<close>.
\<close>

definition scanComplete :: "host \<Rightarrow> jsstring option \<Rightarrow> jsstring option \<Rightarrow> world \<Rightarrow> world" where
  "scanComplete h barcode error w =
     (if (case error of None \<Rightarrow> False | Some e \<Rightarrow> e \<noteq> [])
      then showError (ascii ''Scanning failed: '' @ the error) w
      else case barcode of
             None \<Rightarrow> w
           | Some b \<Rightarrow> if b \<noteq> [] then performLookup h (w\<lparr>inputValue := b\<rparr>) else w)"

definition handleScanResult :: "host \<Rightarrow> jsstring \<Rightarrow> world \<Rightarrow> world" where
  "handleScanResult h barcode w =
     (let w1 = closeScannerModal h w
      in if onScanComplete w1 then scanComplete h (Some barcode) None w1 else w1)"

definition handleScanError :: "host \<Rightarrow> jsstring \<Rightarrow> world \<Rightarrow> world" where
  "handleScanError h error w =
     (let w1 = closeScannerModal h w
      in if onScanComplete w1 then scanComplete h None (Some error) w1 else w1)"

definition handleDetection :: "host \<Rightarrow> jsstring \<Rightarrow> world \<Rightarrow> world" where
  "handleDetection h code w =
     (if \<not> isScanning w then w
      else if isValidBarcode code
      then let w1 = stop h w
           in if onScanResult w1
              then handleScanResult h code (w1\<lparr>surfaced := surfaced w1 @ [code]\<rparr>)
              else w1
      else w)"

subsection \<open>Opening the scanner\<close>

text \<open>
  \<open>BarcodeScanner.initialize\<close> up to the call of \<open>Quagga.init\<close>: without a camera interface
  it calls \<open>onScanError\<close> and rejects (\<open>Some\<close> the error); else the call of \<open>Quagga.init\<close> is
  pending. \<open>openScannerModal\<close> up to its \<open>await\<close>, with its \<open>catch\<close> block for the rejection.
  \<open>quaggaInitDone\<close> is the callback of \<open>Quagga.init\<close> followed by the rest of
  \<open>openScannerModal\<close>.
\<close>

definition initialize :: "host \<Rightarrow> world \<Rightarrow> js_error option \<times> world" where
  "initialize h w =
     (let w1 = w\<lparr>onScanResult := True, onScanError := True\<rparr>
      in if \<not> cameraAvailable h
         then (Some (Error (ascii ''Camera not supported on this device'')),
               if onScanError w1
               then handleScanError h
                      (ascii ''Scanner initialization failed: '' @ ascii ''Camera not supported on this device'') w1
               else w1)
         else (None, w1\<lparr>pendingInits := Suc (pendingInits w1)\<rparr>))"

definition openScannerModal :: "host \<Rightarrow> world \<Rightarrow> world" where
  "openScannerModal h w =
     (let w1 = w\<lparr>onScanComplete := True\<rparr>
      in case modalHidden w1 of
           None \<Rightarrow> handleScanError h (readOfNullish h JNull (ascii ''classList'')) w1
         | Some _ \<Rightarrow>
             (case initialize h (w1\<lparr>modalHidden := Some False\<rparr>) of
                (Some e, w2) \<Rightarrow> handleScanError h (message e) w2
              | (None, w2) \<Rightarrow> w2))"

definition quaggaInitDone :: "host \<Rightarrow> jsstring option \<Rightarrow> world \<Rightarrow> world" where
  "quaggaInitDone h err w =
     (if pendingInits w = 0 then w
      else
        let w0 = w\<lparr>pendingInits := pendingInits w - 1\<rparr>
        in case err of
             Some m \<Rightarrow> handleScanError h (ascii ''Scanner initialization failed: '' @ m) w0
           | None \<Rightarrow>
               let w1 = w0\<lparr>quaggaHandlers := Suc (quaggaHandlers w0), quaggaRunning := True,
                           isScanning := True, scannerInitialized := True\<rparr>;
                   (t, w2) = setTimeout ScanTimeout SCANNER_TIMEOUT w1
               in w2\<lparr>scanTimeout := Some t\<rparr>)"

subsection \<open>Input and keyboard handlers\<close>

text \<open>\<open>event.target\<close> is the barcode input, at the listener and at the call after a paste.\<close>

definition handleBarcodeInput :: "world \<Rightarrow> world" where
  "handleBarcodeInput w =
     (let v = inputValue w;
          digitsOnly = replace v NonDigit [];
          w1 = (if digitsOnly \<noteq> v then w\<lparr>inputValue := digitsOnly\<rparr> else w);
          w2 = (if 16 < length digitsOnly then w1\<lparr>inputValue := take 16 digitsOnly\<rparr> else w1);
          w3 = (if currentBarcode w2 \<noteq> Some (inputValue w2) then resetResults w2 else w2)
      in if length (inputValue w3) = 16 then snd (setTimeout AutoLookup 500 w3) else w3)"

definition handleBarcodeKeypress :: "host \<Rightarrow> jsstring \<Rightarrow> world \<Rightarrow> world" where
  "handleBarcodeKeypress h key w = (if key = ascii ''Enter'' then performLookup h w else w)"

definition handleBarcodePaste :: "world \<Rightarrow> world" where
  "handleBarcodePaste w = snd (setTimeout PasteCleanup 0 w)"

definition handleScanButtonClick :: "host \<Rightarrow> world \<Rightarrow> world" where
  "handleScanButtonClick h w = openScannerModal h w"

definition handleLookupButtonClick :: "host \<Rightarrow> world \<Rightarrow> world" where
  "handleLookupButtonClick h w = performLookup h w"

definition handleKeyboardShortcuts :: "host \<Rightarrow> bool \<Rightarrow> jsstring \<Rightarrow> world \<Rightarrow> world" where
  "handleKeyboardShortcuts h ctrlOrMeta key w =
     (let w1 = (if ctrlOrMeta \<and> key = ascii ''s'' then handleScanButtonClick h w else w)
      in if key = ascii ''Escape'' then closeScannerModal h w1 else w1)"

subsection \<open>Events\<close>

text \<open>
  A timer that fires leaves the list of pending timers and runs its callback. The model
  has no clock: a sequence of events lists them in the order in which they happen.
\<close>

definition fireTimer :: "host \<Rightarrow> nat \<Rightarrow> world \<Rightarrow> world" where
  "fireTimer h t w =
     (case find (\<lambda>x. fst x = t) (timers w) of
        None \<Rightarrow> w
      | Some (_, _, task) \<Rightarrow>
          let w1 = clearTimeout t w
          in (case task of
                AutoLookup \<Rightarrow> performLookup h w1
              | PasteCleanup \<Rightarrow> handleBarcodeInput w1
              | ErrorAutoHide \<Rightarrow> if \<not> errorHidden w1 then resetUI w1 else w1
              | ScanTimeout \<Rightarrow> handleScanError h (ascii ''Scan timeout - please try again'') w1))"

text \<open>
  What can happen on the page, one event at a time (JavaScript runs each handler to its
  end): the user edits the input (the browser stores the text, then the listener runs),
  presses Enter in it, clicks a button or the backdrop of the modal, presses a key
  anywhere; the engine reports a
  decoded value or the end of its initialisation; a request settles; a timer fires. A
  disabled control takes no input, and the engine reports detections to subscribed
  handlers only.
\<close>

datatype event =
    Edit jsstring
  | PressEnter
  | ClickLookup
  | ClickScan
  | ClickClose
  | ClickBackdrop
  | KeyDown bool jsstring
  | Detected jsstring
  | InitDone "jsstring option"
  | Settled fetch_outcome
  | TimerFires nat

fun step :: "host \<Rightarrow> world \<Rightarrow> event \<Rightarrow> world" where
  "step h w (Edit v) = (if inputDisabled w then w else handleBarcodeInput (w\<lparr>inputValue := v\<rparr>))"
| "step h w PressEnter = (if inputDisabled w then w else handleBarcodeKeypress h (ascii ''Enter'') w)"
| "step h w ClickLookup = (if lookupDisabled w then w else handleLookupButtonClick h w)"
| "step h w ClickScan = (if scanDisabled w then w else handleScanButtonClick h w)"
| "step h w ClickClose = closeScannerModal h w"
| "step h w ClickBackdrop = closeScannerModal h w"
| "step h w (KeyDown ctrlOrMeta key) = handleKeyboardShortcuts h ctrlOrMeta key w"
| "step h w (Detected code) = (if quaggaHandlers w = 0 then w else handleDetection h code w)"
| "step h w (InitDone err) = quaggaInitDone h err w"
| "step h w (Settled outcome) = lookupSettles h outcome w"
| "step h w (TimerFires t) = fireTimer h t w"

definition run :: "host \<Rightarrow> event list \<Rightarrow> world \<Rightarrow> world" where
  "run h es w = foldl (step h) w es"

text \<open>
  Modelled from the spec: the page (\<open>index.html\<close>) is not among the sources. By the spec's
  section 4.7 it has every node the classes bind; \<open>loaded\<close> is the state once
  \<open>CommunityCardApp.initialize\<close> has run on it: the fields of the three constructors, the
  modal bound and hidden, the display nodes empty, and \<open>resetUI\<close> applied.
\<close>

definition loaded :: world where
  "loaded =
     \<lparr>quaggaRunning = False, quaggaHandlers = 0, pendingInits = 0,
      isScanning = False, scannerInitialized = False, onScanResult = False, onScanError = False,
      surfaced = [], modalHidden = Some True, onScanComplete = False, scanTimeout = None,
      timers = [], timerCount = 0,
      inputValue = [], inputDisabled = False, inputFocused = True,
      lookupDisabled = False, scanDisabled = False,
      buttonText = Some (ascii ''Check Balance''), buttonIcon = Some (ascii ''search''),
      loadingHidden = True, errorHidden = True, successHidden = True,
      errorMessage = Some [], availableBalance = Some [], monthlyBudget = Some [],
      isLookingUp = False, currentBarcode = None, requests = [], inFlight = 0\<rparr>"

text \<open>
  A host for the closed examples: the messages of V8 for a property read on \<open>undefined\<close> or
  \<open>null\<close>; the conversions that no example reaches yield the empty string.
\<close>

definition sampleHost :: host where
  "sampleHost =
     \<lparr>numberToString = (\<lambda>x. []),
      objectToString = (\<lambda>v. []),
      readOfNullish = (\<lambda>v p. ascii ''Cannot read properties of '' @
         (if v = JNull then ascii ''null'' else ascii ''undefined'') @
         ascii '' (reading '' @ [0x27] @ p @ [0x27] @ ascii '')''),
      nonNumberToFixed = (\<lambda>v. []),
      cameraAvailable = True,
      quaggaStopThrows = False\<rparr>"

text \<open>The page of the examples with the scanner opened and the engine started.\<close>

definition scanning :: world where
  "scanning = run sampleHost [ClickScan, InitDone None] loaded"

text \<open>
  The page of the examples after two openings of the scanner, the second one by the
  keyboard shortcut while the first is active; both initialisations have succeeded.
\<close>

definition openedTwice :: world where
  "openedTwice = run sampleHost [ClickScan, InitDone None, KeyDown True (ascii ''s''), InitDone None] loaded"

text \<open>The page of the examples with a barcode entered and its lookup pending.\<close>

definition lookingUp :: world where
  "lookingUp = run sampleHost [Edit (ascii ''1234567890123456''), PressEnter] loaded"

section \<open>Barcode validation\<close>

lemma repeated_CharRange:
  "repeated (rmatch (CharRange lo hi)) n (i, s) =
     (if n \<le> length s \<and> list_all (\<lambda>c. lo \<le> c \<and> c \<le> hi) (take n s)
      then Some (i + n, drop n s) else None)"
proof (induction n arbitrary: i s)
  case 0
  show ?case by simp
next
  case (Suc n)
  show ?case
  proof (cases s)
    case Nil
    then show ?thesis by simp
  next
    case (Cons c cs)
    then show ?thesis using Suc.IH [of "Suc i" cs] by simp
  qed
qed

lemma rmatch_anchored_later:
  "0 < i \<Longrightarrow> rmatch (Seq AssertStart r) (i, s) = None"
  by simp

lemma search_anchored_later:
  "0 < i \<Longrightarrow> \<not> search (Seq AssertStart r) (i, s)"
  by (induction s arbitrary: i) simp_all

lemma test_anchored:
  "test (Seq AssertStart r) s = (rmatch r (0, s) \<noteq> None)"
proof (cases s)
  case Nil
  then show ?thesis by (simp add: test_def)
next
  case (Cons c cs)
  have "\<not> search (Seq AssertStart r) (Suc 0, cs)"
    by (rule search_anchored_later) simp
  with Cons show ?thesis by (simp add: test_def)
qed

lemma rmatch_digits_to_end:
  "(rmatch (Seq (Exactly (CharRange lo hi) n) AssertEnd) (0, s) \<noteq> None) =
     (length s = n \<and> list_all (\<lambda>c. lo \<le> c \<and> c \<le> hi) s)"
proof (cases "n \<le> length s \<and> list_all (\<lambda>c. lo \<le> c \<and> c \<le> hi) (take n s)")
  case True
  then have "rmatch (Seq (Exactly (CharRange lo hi) n) AssertEnd) (0, s)
      = (if drop n s = [] then Some (n, drop n s) else None)"
    by (simp add: repeated_CharRange)
  moreover have "(drop n s = []) = (length s = n)" using True by auto
  moreover have "length s = n \<Longrightarrow> take n s = s" by simp
  ultimately show ?thesis using True by auto
next
  case False
  then have "repeated (rmatch (CharRange lo hi)) n (0, s) = None"
    unfolding repeated_CharRange by (rule if_not_P)
  then have "rmatch (Seq (Exactly (CharRange lo hi) n) AssertEnd) (0, s) = None"
    by simp
  moreover have "\<not> (length s = n \<and> list_all (\<lambda>c. lo \<le> c \<and> c \<le> hi) s)"
  proof
    assume a: "length s = n \<and> list_all (\<lambda>c. lo \<le> c \<and> c \<le> hi) s"
    then have "take n s = s" by simp
    with a False show False by simp
  qed
  ultimately show ?thesis by simp
qed

lemma isValidBarcode_digits:
  "isValidBarcode v = (length v = 16 \<and> list_all isDigit v)"
proof -
  have "isValidBarcode v = (rmatch (Seq (Exactly (CharRange 0x30 0x39) 16) AssertEnd) (0, v) \<noteq> None)"
    unfolding isValidBarcode_def BARCODE_PATTERN_def by (rule test_anchored)
  also have "\<dots> = (length v = 16 \<and> list_all (\<lambda>c. 0x30 \<le> c \<and> c \<le> 0x39) v)"
    by (rule rmatch_digits_to_end)
  also have "(\<lambda>c::jschar. 0x30 \<le> c \<and> c \<le> 0x39) = isDigit"
    by (simp add: isDigit_def fun_eq_iff)
  finally show ?thesis .
qed

text \<open>
  C1. For every string, \<open>isValidBarcode\<close> returns true if and only if the string consists
  of exactly 16 decimal digits and nothing else; a string of another length, or one with
  a code unit that is not a digit, is rejected.
\<close>

theorem isValidBarcode_iff:
  "isValidBarcode v = (length v = 16 \<and> list_all isDigit v)"
proof
  assume "isValidBarcode v"
  then show "length v = 16 \<and> list_all isDigit v"
    by (simp only: isValidBarcode_digits)
next
  assume "length v = 16 \<and> list_all isDigit v"
  then show "isValidBarcode v"
    by (simp only: isValidBarcode_digits)
qed

section \<open>The input handler\<close>

lemma replaceGlobal_NonDigit:
  "replaceGlobal NonDigit [] (i, cs) = filter isDigit cs"
proof (induction cs arbitrary: i)
  case Nil
  show ?case by (subst replaceGlobal.simps) simp
next
  case (Cons c cs)
  show ?case by (subst replaceGlobal.simps) (simp add: Cons.IH)
qed

lemma inputValue_resetResults: "inputValue (resetResults w) = inputValue w"
  by (simp add: resetResults_def hideAllSections_def)

lemma inputValue_setTimeout: "inputValue (snd (setTimeout task d w)) = inputValue w"
  by (simp add: setTimeout_def Let_def)

lemma handleBarcodeInput_value:
  "inputValue (handleBarcodeInput w) = take 16 (filter isDigit (inputValue w))"
proof -
  let ?d = "filter isDigit (inputValue w)"
  have d: "replace (inputValue w) NonDigit [] = ?d"
    by (simp add: replace_def replaceGlobal_NonDigit)
  show ?thesis
  proof (cases "16 < length ?d")
    case True
    then show ?thesis
      unfolding handleBarcodeInput_def d Let_def
      by (simp add: inputValue_resetResults inputValue_setTimeout)
  next
    case False
    then have t: "take 16 ?d = ?d" by simp
    show ?thesis
    proof (cases "?d = inputValue w")
      case True
      with False show ?thesis
        unfolding handleBarcodeInput_def d Let_def t
        by (simp add: inputValue_resetResults inputValue_setTimeout)
    next
      case neq: False
      with False show ?thesis
        unfolding handleBarcodeInput_def d Let_def t
        by (simp add: inputValue_resetResults inputValue_setTimeout)
    qed
  qed
qed

text \<open>
  C4. Whatever text the barcode field holds when the input handler runs, the handler
  leaves in the field that text without its non-digit code units, cut to its first 16
  code units: \<open>12a34\<close> becomes \<open>1234\<close>, and of 20 digits the first 16 stay.
\<close>

theorem handleBarcodeInput_stores:
  "inputValue (handleBarcodeInput (w\<lparr>inputValue := raw\<rparr>)) = take 16 (filter isDigit raw)
   \<and> inputValue (handleBarcodeInput (w\<lparr>inputValue := ascii ''12a34''\<rparr>)) = ascii ''1234''
   \<and> inputValue (handleBarcodeInput (w\<lparr>inputValue := ascii ''12345678901234567890''\<rparr>))
       = ascii ''1234567890123456''"
proof -
  have general: "\<And>v. inputValue (handleBarcodeInput (w\<lparr>inputValue := v\<rparr>)) = take 16 (filter isDigit v)"
    by (simp add: handleBarcodeInput_value)
  have "take 16 (filter isDigit (ascii ''12a34'')) = ascii ''1234''"
    by (simp add: ascii_def isDigit_def)
  moreover have "take 16 (filter isDigit (ascii ''12345678901234567890'')) = ascii ''1234567890123456''"
    by (simp add: ascii_def isDigit_def)
  ultimately show ?thesis by (simp only: general simp_thms)
qed

section \<open>The environment name\<close>

text \<open>
  With a table of names and an environment key in the configuration, the function yields
  the label of the key, and \<open>Unknown\<close> for a key without a label or with an empty one
  (a key that names a property of \<open>Object.prototype\<close> is outside the model).
\<close>

lemma environmentNameOf_table:
  assumes "map_of config (ascii ''ENV_NAMES'') = Some (JObject names)"
    and "map_of config (ascii ''CURRENT_ENV'') = Some (JString env)"
  shows "environmentNameOf h (JObject config) =
           Inr (case map_of names env of
                  None \<Rightarrow> JString (ascii ''Unknown'')
                | Some label \<Rightarrow> if toBoolean label then label else JString (ascii ''Unknown''))"
  using assms by (simp add: environmentNameOf_def split: option.splits)

text \<open>
  C8. \<open>getCurrentEnvironmentName\<close> is to return the label of the current environment, and
  \<open>Unknown\<close> when the key has no label. The \<open>CONFIG\<close> of the source has neither \<open>ENV_NAMES\<close>
  nor \<open>CURRENT_ENV\<close>: the function reads a property of \<open>undefined\<close> and throws a TypeError,
  on every host.
\<close>

theorem getCurrentEnvironmentName_throws:
  "getCurrentEnvironmentName h = Inl (TypeError (readOfNullish h JUndefined (ascii ''undefined'')))
   \<and> getCurrentEnvironmentName h \<noteq> Inr (JString (ascii ''Unknown''))"
proof -
  have names: "getProp h CONFIG (ascii ''ENV_NAMES'') = Inr JUndefined"
    by (simp add: CONFIG_def ascii_def)
  have env: "getProp h CONFIG (ascii ''CURRENT_ENV'') = Inr JUndefined"
    by (simp add: CONFIG_def ascii_def)
  have "getCurrentEnvironmentName h = Inl (TypeError (readOfNullish h JUndefined (ascii ''undefined'')))"
    by (simp add: getCurrentEnvironmentName_def environmentNameOf_def names env)
  then show ?thesis by simp
qed

section \<open>The barcodes of the examples\<close>

lemma sixteen_digits: "length (ascii ''1234567890123456'') = 16 \<and> list_all isDigit (ascii ''1234567890123456'')"
  by (simp add: ascii_def isDigit_def)

lemma five_digits: "\<not> (length (ascii ''12345'') = 16 \<and> list_all isDigit (ascii ''12345''))"
  by (simp add: ascii_def)

lemma not_numeric: "\<not> (length (ascii ''abcdefghij123456'') = 16 \<and> list_all isDigit (ascii ''abcdefghij123456''))"
  by (simp add: ascii_def isDigit_def)

lemma digit_not_space:
  assumes "isDigit c"
  shows "\<not> isWhiteSpace c"
proof
  assume ws: "isWhiteSpace c"
  from assms have lo: "0x30 \<le> c" and hi: "c \<le> 0x39" by (simp_all add: isDigit_def)
  have "\<not> (0x2000 \<le> c)"
  proof
    assume "0x2000 \<le> c"
    from this hi have "(0x2000 :: jschar) \<le> 0x39" by (rule order_trans)
    then show False by simp
  qed
  with ws have "c \<in> {0x09, 0x0A, 0x0B, 0x0C, 0x0D, 0x20, 0xA0, 0x1680, 0x2028, 0x2029, 0x202F,
      0x205F, 0x3000, 0xFEFF}"
    by (simp add: isWhiteSpace_def)
  with lo hi show False by auto
qed

lemma trim_digits:
  assumes "list_all isDigit s"
  shows "trim s = s"
proof (cases s)
  case Nil
  then show ?thesis by (simp add: trim_def)
next
  case (Cons c cs)
  with assms have "\<not> isWhiteSpace c" by (simp add: digit_not_space)
  with Cons have front: "dropWhile isWhiteSpace s = s" by simp
  have "rev s \<noteq> []" using Cons by simp
  then obtain d ds where r: "rev s = d # ds" by (cases "rev s") auto
  then have "d \<in> set s" by (metis list.set_intros(1) set_rev)
  with assms have "\<not> isWhiteSpace d" by (simp add: digit_not_space list_all_iff)
  with r have "dropWhile isWhiteSpace (rev s) = rev s" by simp
  with front show ?thesis by (simp add: trim_def)
qed

lemma replace_NonDigit: "replace v NonDigit [] = filter isDigit v"
  by (simp add: replace_def replaceGlobal_NonDigit)

lemma barcode_facts:
  "isValidBarcode (ascii ''1234567890123456'')"
  "trim (ascii ''1234567890123456'') = ascii ''1234567890123456''"
  "filter isDigit (ascii ''1234567890123456'') = ascii ''1234567890123456''"
  "ascii ''1234567890123456'' \<noteq> []"
  "length (ascii ''1234567890123456'') = 16"
proof -
  show "isValidBarcode (ascii ''1234567890123456'')"
    using sixteen_digits by (simp add: isValidBarcode_digits)
  show "trim (ascii ''1234567890123456'') = ascii ''1234567890123456''"
    using sixteen_digits by (simp add: trim_digits)
  show "filter isDigit (ascii ''1234567890123456'') = ascii ''1234567890123456''"
    using sixteen_digits by (simp add: list_all_iff)
  show "ascii ''1234567890123456'' \<noteq> []" by (simp add: ascii_def)
  show "length (ascii ''1234567890123456'') = 16" by (simp add: ascii_def)
qed

section \<open>Detections\<close>

lemmas ui_defs = hideAllSections_def showLoading_def hideLoading_def setLookupState_def
  showError_def setTimeout_def clearTimeout_def resetResults_def resetUI_def fetch_def

lemma performLookup_scanner:
  "isScanning (performLookup h w) = isScanning w"
  "surfaced (performLookup h w) = surfaced w"
  "quaggaHandlers (performLookup h w) = quaggaHandlers w"
  "quaggaRunning (performLookup h w) = quaggaRunning w"
  by (simp_all add: performLookup_def ui_defs Let_def)

lemma scanComplete_scanner:
  "isScanning (scanComplete h b e w) = isScanning w"
  "surfaced (scanComplete h b e w) = surfaced w"
  "quaggaHandlers (scanComplete h b e w) = quaggaHandlers w"
  "quaggaRunning (scanComplete h b e w) = quaggaRunning w"
  by (simp_all add: scanComplete_def performLookup_scanner ui_defs Let_def split: option.splits)

lemma closeScannerModal_scanner:
  "isScanning (closeScannerModal h w) = (isScanning w \<and> quaggaStopThrows h)"
  "surfaced (closeScannerModal h w) = surfaced w"
  "quaggaHandlers (closeScannerModal h w) = 0"
  "quaggaRunning (closeScannerModal h w) = (quaggaRunning w \<and> (isScanning w \<longrightarrow> quaggaStopThrows h))"
  by (auto simp add: closeScannerModal_def stop_def ui_defs Let_def split: option.splits)

lemma handleScanResult_scanner:
  "isScanning (handleScanResult h b w) = (isScanning w \<and> quaggaStopThrows h)"
  "surfaced (handleScanResult h b w) = surfaced w"
  "quaggaHandlers (handleScanResult h b w) = 0"
  "quaggaRunning (handleScanResult h b w) = (quaggaRunning w \<and> (isScanning w \<longrightarrow> quaggaStopThrows h))"
  by (simp_all add: handleScanResult_def Let_def scanComplete_scanner closeScannerModal_scanner)

lemma handleDetection_inactive: "\<not> isScanning w \<Longrightarrow> handleDetection h code w = w"
  by (simp add: handleDetection_def)

lemma handleDetection_invalid:
  assumes "\<not> (length code = 16 \<and> list_all isDigit code)"
  shows "handleDetection h code w = w"
proof -
  from assms have "\<not> isValidBarcode code" using isValidBarcode_digits [of code] by blast
  then show ?thesis by (simp add: handleDetection_def)
qed

lemma handleDetection_valid:
  assumes "isScanning w" "length code = 16" "list_all isDigit code"
  shows "isScanning (handleDetection h code w) = quaggaStopThrows h"
    and "quaggaHandlers (handleDetection h code w) = 0"
    and "surfaced (handleDetection h code w) = (if onScanResult w then surfaced w @ [code] else surfaced w)"
    and "quaggaRunning (handleDetection h code w) = (quaggaRunning w \<and> quaggaStopThrows h)"
  using assms
  by (auto simp add: handleDetection_def isValidBarcode_digits Let_def handleScanResult_scanner stop_def)

lemma detections_inactive:
  "\<not> isScanning w \<Longrightarrow> foldl (\<lambda>w c. handleDetection h c w) w codes = w"
  by (induction codes) (simp_all add: handleDetection_inactive)

lemma detections_at_most_one:
  assumes "\<not> quaggaStopThrows h"
  shows "length (surfaced (foldl (\<lambda>w c. handleDetection h c w) w codes)) \<le> Suc (length (surfaced w))"
proof (induction codes arbitrary: w)
  case Nil
  show ?case by simp
next
  case (Cons c codes)
  show ?case
  proof (cases "isScanning w \<and> length c = 16 \<and> list_all isDigit c")
    case True
    then have "\<not> isScanning (handleDetection h c w)"
      using assms handleDetection_valid(1) [of w c h] by simp
    then have "foldl (\<lambda>w c. handleDetection h c w) (handleDetection h c w) codes = handleDetection h c w"
      by (rule detections_inactive)
    then show ?thesis using True handleDetection_valid(3) [of w c h] by simp
  next
    case False
    then have "handleDetection h c w = w"
      using handleDetection_inactive handleDetection_invalid by blast
    then show ?thesis using Cons.IH [of w] by simp
  qed
qed


lemma onScanResult_performLookup: "onScanResult (performLookup h w) = onScanResult w"
  by (simp add: performLookup_def ui_defs Let_def)

lemma onScanResult_scanComplete: "onScanResult (scanComplete h b e w) = onScanResult w"
  by (simp add: scanComplete_def onScanResult_performLookup ui_defs Let_def split: option.splits)

lemma onScanResult_closeScannerModal: "onScanResult (closeScannerModal h w) = onScanResult w"
  by (simp add: closeScannerModal_def stop_def ui_defs Let_def split: option.splits)

lemma onScanResult_handleScanResult: "onScanResult (handleScanResult h c w) = onScanResult w"
  by (simp add: handleScanResult_def Let_def onScanResult_scanComplete onScanResult_closeScannerModal)

lemma onScanResult_handleDetection: "onScanResult (handleDetection h c w) = onScanResult w"
  by (simp add: handleDetection_def Let_def onScanResult_handleScanResult stop_def)

lemma scanning_value:
  "scanning = loaded\<lparr>quaggaRunning := True, quaggaHandlers := 1, isScanning := True,
     scannerInitialized := True, onScanResult := True, onScanError := True,
     modalHidden := Some False, onScanComplete := True, scanTimeout := Some 1,
     timers := [(1, 30000, ScanTimeout)], timerCount := 1\<rparr>"
  by (simp add: scanning_def run_def handleScanButtonClick_def openScannerModal_def initialize_def
      quaggaInitDone_def setTimeout_def SCANNER_TIMEOUT_def loaded_def sampleHost_def Let_def)

text \<open>
  C5 (as amended). A detection delivered while scanning is inactive changes nothing and
  calls nothing. While scanning is active, a value that is not exactly 16 digits changes
  nothing either: no callback, scanning stays active. A value of exactly 16 digits
  detaches the detection handlers and is passed to the success callback when one is set;
  scanning and the engine are stopped unless the engine's \<open>stop\<close> throws. When it does not
  throw, any sequence of detections of one session surfaces at most one code.
\<close>

theorem handleDetection_cases:
  "(\<not> isScanning w \<longrightarrow> handleDetection h code w = w)
   \<and> (isScanning w \<and> \<not> (length code = 16 \<and> list_all isDigit code) \<longrightarrow>
        handleDetection h code w = w)
   \<and> (isScanning w \<and> length code = 16 \<and> list_all isDigit code \<longrightarrow>
        quaggaHandlers (handleDetection h code w) = 0
        \<and> surfaced (handleDetection h code w) = (if onScanResult w then surfaced w @ [code] else surfaced w)
        \<and> isScanning (handleDetection h code w) = quaggaStopThrows h
        \<and> quaggaRunning (handleDetection h code w) = (quaggaRunning w \<and> quaggaStopThrows h))
   \<and> (\<not> quaggaStopThrows h \<longrightarrow>
        length (surfaced (foldl (\<lambda>w c. handleDetection h c w) w codes)) \<le> Suc (length (surfaced w)))"
proof (intro conjI impI)
  assume "\<not> isScanning w"
  then show "handleDetection h code w = w" by (rule handleDetection_inactive)
next
  assume "isScanning w \<and> \<not> (length code = 16 \<and> list_all isDigit code)"
  then show "handleDetection h code w = w" by (simp add: handleDetection_invalid)
next
  assume a: "isScanning w \<and> length code = 16 \<and> list_all isDigit code"
  then show "quaggaHandlers (handleDetection h code w) = 0"
    by (simp add: handleDetection_valid)
  from a show "surfaced (handleDetection h code w) = (if onScanResult w then surfaced w @ [code] else surfaced w)"
    by (simp add: handleDetection_valid)
  from a show "isScanning (handleDetection h code w) = quaggaStopThrows h"
    by (simp add: handleDetection_valid)
  from a show "quaggaRunning (handleDetection h code w) = (quaggaRunning w \<and> quaggaStopThrows h)"
    by (simp add: handleDetection_valid)
next
  assume "\<not> quaggaStopThrows h"
  then show "length (surfaced (foldl (\<lambda>w c. handleDetection h c w) w codes)) \<le> Suc (length (surfaced w))"
    by (rule detections_at_most_one)
qed

theorem handleDetection_cases_witness:
  "\<not> isScanning loaded \<and> handleDetection sampleHost (ascii ''1234567890123456'') loaded = loaded
   \<and> isScanning scanning
   \<and> handleDetection sampleHost (ascii ''12345'') scanning = scanning
   \<and> handleDetection sampleHost (ascii ''abcdefghij123456'') scanning = scanning
   \<and> \<not> isScanning (handleDetection sampleHost (ascii ''1234567890123456'') scanning)
   \<and> surfaced (handleDetection sampleHost (ascii ''1234567890123456'') scanning) = [ascii ''1234567890123456'']
   \<and> \<not> quaggaStopThrows sampleHost
   \<and> length (surfaced (foldl (\<lambda>w c. handleDetection sampleHost c w) scanning
         [ascii ''12345'', ascii ''1234567890123456'', ascii ''1234567890123456''])) \<le> 1"
proof -
  have idle: "\<not> isScanning loaded" by (simp add: loaded_def)
  have active: "isScanning scanning" "onScanResult scanning" "surfaced scanning = []"
    by (simp_all add: scanning_value loaded_def)
  have host: "\<not> quaggaStopThrows sampleHost" by (simp add: sampleHost_def)
  note t = handleDetection_cases
  from idle t [of loaded sampleHost "ascii ''1234567890123456''"]
  have 1: "handleDetection sampleHost (ascii ''1234567890123456'') loaded = loaded" by blast
  from active five_digits t [of scanning sampleHost "ascii ''12345''"]
  have 2: "handleDetection sampleHost (ascii ''12345'') scanning = scanning" by blast
  from active not_numeric t [of scanning sampleHost "ascii ''abcdefghij123456''"]
  have 3: "handleDetection sampleHost (ascii ''abcdefghij123456'') scanning = scanning" by blast
  from active sixteen_digits host t [of scanning sampleHost "ascii ''1234567890123456''"]
  have 4: "\<not> isScanning (handleDetection sampleHost (ascii ''1234567890123456'') scanning)"
    and 5: "surfaced (handleDetection sampleHost (ascii ''1234567890123456'') scanning) = [ascii ''1234567890123456'']"
    by simp_all
  from host active t [of scanning sampleHost _ "[ascii ''12345'', ascii ''1234567890123456'', ascii ''1234567890123456'']"]
  have 6: "length (surfaced (foldl (\<lambda>w c. handleDetection sampleHost c w) scanning
         [ascii ''12345'', ascii ''1234567890123456'', ascii ''1234567890123456''])) \<le> 1"
    by simp
  from idle active host 1 2 3 4 5 6 show ?thesis by simp
qed

text \<open>
  C5 as stated fails where the engine's \<open>stop\<close> throws: after a detection of 16 digits
  scanning is still active, and the same code delivered again is surfaced a second time.
\<close>

theorem handleDetection_counterexample:
  "isScanning (handleDetection (sampleHost\<lparr>quaggaStopThrows := True\<rparr>) (ascii ''1234567890123456'') scanning)
   \<and> surfaced (handleDetection (sampleHost\<lparr>quaggaStopThrows := True\<rparr>) (ascii ''1234567890123456'')
        (handleDetection (sampleHost\<lparr>quaggaStopThrows := True\<rparr>) (ascii ''1234567890123456'') scanning))
       = [ascii ''1234567890123456'', ascii ''1234567890123456'']"
proof -
  let ?h = "sampleHost\<lparr>quaggaStopThrows := True\<rparr>"
  let ?c = "ascii ''1234567890123456''"
  have active: "isScanning scanning" "onScanResult scanning" "surfaced scanning = []"
    by (simp_all add: scanning_value loaded_def)
  have c: "length ?c = 16" "list_all isDigit ?c" using sixteen_digits by simp_all
  have 1: "isScanning (handleDetection ?h ?c scanning)"
    using handleDetection_valid(1) [OF active(1) c, of ?h] by simp
  have 2: "surfaced (handleDetection ?h ?c scanning) = [?c]"
    using handleDetection_valid(3) [OF active(1) c, of ?h] active by simp
  have 3: "onScanResult (handleDetection ?h ?c scanning)"
    using active by (simp add: onScanResult_handleDetection)
  have "surfaced (handleDetection ?h ?c (handleDetection ?h ?c scanning)) = [?c, ?c]"
    using handleDetection_valid(3) [OF 1 c, of ?h] 2 3 by simp
  with 1 show ?thesis by simp
qed

section \<open>Closing the scanner\<close>

lemma closeScannerModal_fields:
  "modalHidden (closeScannerModal h w) = map_option (\<lambda>_. True) (modalHidden w)"
  "scannerInitialized (closeScannerModal h w) = False"
  "scanTimeout (closeScannerModal h w) = None"
  "timers (closeScannerModal h w) =
     (case scanTimeout w of None \<Rightarrow> timers w | Some t \<Rightarrow> filter (\<lambda>x. fst x \<noteq> t) (timers w))"
  by (auto simp add: closeScannerModal_def stop_def clearTimeout_def Let_def split: option.splits)

lemma closeScannerModal_twice:
  "closeScannerModal h (closeScannerModal h w) = closeScannerModal h w"
  by (cases "modalHidden w"; cases "scanTimeout w")
     (simp_all add: closeScannerModal_def stop_def clearTimeout_def Let_def)

lemma openedTwice_value:
  "openedTwice = loaded\<lparr>quaggaRunning := True, quaggaHandlers := 2, isScanning := True,
     scannerInitialized := True, onScanResult := True, onScanError := True,
     modalHidden := Some False, onScanComplete := True, scanTimeout := Some 2,
     timers := [(1, 30000, ScanTimeout), (2, 30000, ScanTimeout)], timerCount := 2\<rparr>"
  by (simp add: openedTwice_def run_def handleScanButtonClick_def handleKeyboardShortcuts_def
      openScannerModal_def initialize_def
      quaggaInitDone_def setTimeout_def SCANNER_TIMEOUT_def loaded_def sampleHost_def Let_def ascii_def)

text \<open>
  C7 (as amended). In every state \<open>closeScannerModal\<close> hides the modal when one is bound,
  detaches the detection handlers, marks the scanner uninitialised and clears the timeout
  whose id \<open>scanTimeout\<close> holds; unless the engine's \<open>stop\<close> throws, scanning is inactive
  afterwards and an engine that was scanning has stopped. A second call changes nothing.
  The close button, a click on the backdrop and the Escape key run exactly this function,
  and a detection and an error run it before they report.
\<close>

theorem closeScannerModal_idempotent:
  "closeScannerModal h (closeScannerModal h w) = closeScannerModal h w
   \<and> modalHidden (closeScannerModal h w) = map_option (\<lambda>_. True) (modalHidden w)
   \<and> quaggaHandlers (closeScannerModal h w) = 0
   \<and> \<not> scannerInitialized (closeScannerModal h w)
   \<and> scanTimeout (closeScannerModal h w) = None
   \<and> (\<forall>t. scanTimeout w = Some t \<longrightarrow> t \<notin> fst ` set (timers (closeScannerModal h w)))
   \<and> (\<not> quaggaStopThrows h \<longrightarrow>
        \<not> isScanning (closeScannerModal h w)
        \<and> (isScanning w \<longrightarrow> \<not> quaggaRunning (closeScannerModal h w)))
   \<and> step h w ClickClose = closeScannerModal h w
   \<and> step h w ClickBackdrop = closeScannerModal h w
   \<and> step h w (KeyDown False (ascii ''Escape'')) = closeScannerModal h w
   \<and> handleScanResult h code w =
        (if onScanComplete w then scanComplete h (Some code) None (closeScannerModal h w)
         else closeScannerModal h w)
   \<and> handleScanError h msg w =
        (if onScanComplete w then scanComplete h None (Some msg) (closeScannerModal h w)
         else closeScannerModal h w)"
proof (intro conjI allI impI)
  show "closeScannerModal h (closeScannerModal h w) = closeScannerModal h w"
    by (rule closeScannerModal_twice)
  show "modalHidden (closeScannerModal h w) = map_option (\<lambda>_. True) (modalHidden w)"
    by (rule closeScannerModal_fields)
  show "quaggaHandlers (closeScannerModal h w) = 0"
    by (rule closeScannerModal_scanner)
  show "\<not> scannerInitialized (closeScannerModal h w)"
    by (simp add: closeScannerModal_fields)
  show "scanTimeout (closeScannerModal h w) = None"
    by (rule closeScannerModal_fields)
next
  fix t assume "scanTimeout w = Some t"
  then show "t \<notin> fst ` set (timers (closeScannerModal h w))"
    by (auto simp add: closeScannerModal_fields)
next
  assume "\<not> quaggaStopThrows h"
  then show "\<not> isScanning (closeScannerModal h w)"
    by (simp add: closeScannerModal_scanner)
next
  assume "\<not> quaggaStopThrows h" and "isScanning w"
  then show "\<not> quaggaRunning (closeScannerModal h w)"
    by (simp add: closeScannerModal_scanner)
next
  show "step h w ClickClose = closeScannerModal h w"
    and "step h w ClickBackdrop = closeScannerModal h w"
    by simp_all
  have "ascii ''Escape'' \<noteq> ascii ''s''" by (simp add: ascii_def)
  then show "step h w (KeyDown False (ascii ''Escape'')) = closeScannerModal h w"
    by (simp add: handleKeyboardShortcuts_def)
  have kept: "onScanComplete (closeScannerModal h w) = onScanComplete w"
    by (simp add: closeScannerModal_def stop_def clearTimeout_def Let_def split: option.splits)
  show "handleScanResult h code w =
      (if onScanComplete w then scanComplete h (Some code) None (closeScannerModal h w)
       else closeScannerModal h w)"
    by (simp add: handleScanResult_def Let_def kept)
  show "handleScanError h msg w =
      (if onScanComplete w then scanComplete h None (Some msg) (closeScannerModal h w)
       else closeScannerModal h w)"
    by (simp add: handleScanError_def Let_def kept)
qed

theorem closeScannerModal_idempotent_witness:
  "scanTimeout scanning = Some 1
   \<and> \<not> quaggaStopThrows sampleHost
   \<and> isScanning scanning
   \<and> closeScannerModal sampleHost (closeScannerModal sampleHost scanning) = closeScannerModal sampleHost scanning
   \<and> modalHidden (closeScannerModal sampleHost scanning) = Some True
   \<and> timers (closeScannerModal sampleHost scanning) = []
   \<and> \<not> isScanning (closeScannerModal sampleHost scanning)
   \<and> \<not> quaggaRunning (closeScannerModal sampleHost scanning)
   \<and> closeScannerModal sampleHost loaded = loaded"
proof -
  have s: "scanTimeout scanning = Some 1" "isScanning scanning" "modalHidden scanning = Some False"
    "timers scanning = [(1, 30000, ScanTimeout)]"
    by (simp_all add: scanning_value loaded_def)
  have host: "\<not> quaggaStopThrows sampleHost" by (simp add: sampleHost_def)
  note t = closeScannerModal_idempotent [of sampleHost scanning]
  from t have 1: "closeScannerModal sampleHost (closeScannerModal sampleHost scanning) = closeScannerModal sampleHost scanning"
    by blast
  from t s have 2: "modalHidden (closeScannerModal sampleHost scanning) = Some True" by simp
  from t s host have 3: "\<not> isScanning (closeScannerModal sampleHost scanning)"
    "\<not> quaggaRunning (closeScannerModal sampleHost scanning)" by blast+
  have 4: "timers (closeScannerModal sampleHost scanning) = []"
    by (simp add: closeScannerModal_fields s)
  have 5: "closeScannerModal sampleHost loaded = loaded"
    by (simp add: closeScannerModal_def stop_def loaded_def Let_def)
  from s host 1 2 3 4 5 show ?thesis by simp
qed

text \<open>
  C7 as stated fails on the page where the scanner was opened twice: the first scan
  timeout is still pending after the close.
\<close>

theorem closeScannerModal_counterexample:
  "timers (closeScannerModal sampleHost openedTwice) = [(1, 30000, ScanTimeout)]"
  by (simp add: closeScannerModal_fields openedTwice_value loaded_def)

section \<open>Lookups in flight\<close>

lemmas handler_defs = handleBarcodeInput_def handleBarcodeKeypress_def handleBarcodePaste_def
  handleScanButtonClick_def handleLookupButtonClick_def handleKeyboardShortcuts_def fireTimer_def
  openScannerModal_def initialize_def quaggaInitDone_def handleScanError_def handleScanResult_def
  scanComplete_def closeScannerModal_def stop_def performLookup_def lookupSettles_def

text \<open>
  C6. At most one balance lookup is to be in flight at any time. On the page of the
  examples, on a device without a camera interface, in the order of time: the user enters
  a barcode and presses Enter (the first request is sent); the automatic lookup fires
  after 500 ms and is dropped by the guard; the user presses Ctrl+S while the request is
  pending (the scanner fails at once and the error is shown twice, each with its timer of
  5000 ms); the first of these timers fires and \<open>resetUI\<close> clears \<open>isLookingUp\<close>, the second
  finds the error hidden; the user presses Enter again. A second request is sent while
  the first is still pending.
\<close>

theorem two_lookups_in_flight:
  "inFlight (run (sampleHost\<lparr>cameraAvailable := False\<rparr>)
      [Edit (ascii ''1234567890123456''), PressEnter, TimerFires 1, KeyDown True (ascii ''s''),
       TimerFires 2, TimerFires 3, PressEnter]
      loaded) = 2
   \<and> requests (run (sampleHost\<lparr>cameraAvailable := False\<rparr>)
      [Edit (ascii ''1234567890123456''), PressEnter, TimerFires 1, KeyDown True (ascii ''s''),
       TimerFires 2, TimerFires 3, PressEnter]
      loaded)
     = [getCardBalanceRequest (sampleHost\<lparr>cameraAvailable := False\<rparr>) (ascii ''1234567890123456''),
        getCardBalanceRequest (sampleHost\<lparr>cameraAvailable := False\<rparr>) (ascii ''1234567890123456'')]"
proof -
  let ?h = "sampleHost\<lparr>cameraAvailable := False\<rparr>"
  let ?b = "ascii ''1234567890123456''"
  define w1 where "w1 = step ?h loaded (Edit ?b)"
  define w2 where "w2 = step ?h w1 PressEnter"
  define w3 where "w3 = step ?h w2 (TimerFires 1)"
  define w4 where "w4 = step ?h w3 (KeyDown True (ascii ''s''))"
  define w5 where "w5 = step ?h w4 (TimerFires 2)"
  define w6 where "w6 = step ?h w5 (TimerFires 3)"
  define w7 where "w7 = step ?h w6 PressEnter"
  have r: "run ?h [Edit ?b, PressEnter, TimerFires 1, KeyDown True (ascii ''s''),
      TimerFires 2, TimerFires 3, PressEnter] loaded = w7"
    by (simp add: run_def w1_def w2_def w3_def w4_def w5_def w6_def w7_def)
  have 1: "w1 = loaded\<lparr>inputValue := ?b, timers := [(1, 500, AutoLookup)], timerCount := 1\<rparr>"
    by (simp add: w1_def loaded_def handler_defs ui_defs replace_NonDigit barcode_facts Let_def)
  have 2: "w2 = w1\<lparr>isLookingUp := True, lookupDisabled := True, scanDisabled := True, inputDisabled := True,
      buttonText := Some (ascii ''Checking...''), buttonIcon := Some (ascii ''hourglass_empty''),
      loadingHidden := False, currentBarcode := Some ?b,
      requests := [getCardBalanceRequest ?h ?b], inFlight := 1\<rparr>"
    by (simp add: w2_def 1 loaded_def handler_defs ui_defs barcode_facts Let_def)
  have 3: "w3 = w2\<lparr>timers := []\<rparr>"
    by (simp add: w3_def 2 1 loaded_def fireTimer_def clearTimeout_def performLookup_def
        barcode_facts Let_def)
  have 4: "isLookingUp w4 \<and> inFlight w4 = 1 \<and> requests w4 = [getCardBalanceRequest ?h ?b]
      \<and> \<not> errorHidden w4 \<and> inputValue w4 = ?b
      \<and> timers w4 = [(2, 5000, ErrorAutoHide), (3, 5000, ErrorAutoHide)]"
    by (simp add: w4_def 3 2 1 loaded_def handler_defs ui_defs sampleHost_def Let_def ascii_def)
  have 5: "\<not> isLookingUp w5 \<and> \<not> inputDisabled w5 \<and> errorHidden w5 \<and> inFlight w5 = 1
      \<and> requests w5 = [getCardBalanceRequest ?h ?b] \<and> inputValue w5 = ?b
      \<and> timers w5 = [(3, 5000, ErrorAutoHide)]"
    using 4 by (simp add: w5_def handler_defs ui_defs Let_def)
  have 6: "\<not> isLookingUp w6 \<and> \<not> inputDisabled w6 \<and> inFlight w6 = 1
      \<and> requests w6 = [getCardBalanceRequest ?h ?b] \<and> inputValue w6 = ?b"
    using 5 by (simp add: w6_def fireTimer_def clearTimeout_def Let_def)
  have 7: "inFlight w7 = 2 \<and> requests w7 = [getCardBalanceRequest ?h ?b, getCardBalanceRequest ?h ?b]"
    using 6 by (simp add: w7_def handler_defs ui_defs barcode_facts Let_def)
  from 7 show ?thesis unfolding r by simp
qed

subsection \<open>The guard, the request and the completion\<close>

lemma valid_not_empty: "isValidBarcode b \<Longrightarrow> b \<noteq> []"
  by (auto simp add: isValidBarcode_digits)

lemma showError_fields:
  "requests (showError m w) = requests w"
  "inFlight (showError m w) = inFlight w"
  "isLookingUp (showError m w) = isLookingUp w"
  "errorMessage (showError m w) = map_option (\<lambda>_. m) (errorMessage w)"
  "errorHidden (showError m w) = False"
  by (simp_all add: ui_defs Let_def)

lemma performLookup_dropped:
  assumes "isLookingUp w" and "isValidBarcode (trim (inputValue w))"
  shows "performLookup h w = w"
  using assms valid_not_empty [OF assms(2)] by (simp add: performLookup_def Let_def)

lemma performLookup_guard:
  assumes "isLookingUp w"
  shows "requests (performLookup h w) = requests w
    \<and> inFlight (performLookup h w) = inFlight w
    \<and> isLookingUp (performLookup h w)"
proof (cases "isValidBarcode (trim (inputValue w))")
  case True
  with assms show ?thesis by (simp add: performLookup_dropped)
next
  case False
  then have "performLookup h w =
      (showError (if trim (inputValue w) = [] then ascii ''Please enter a barcode''
                  else ascii ''Please enter a valid 16-digit barcode'') w)\<lparr>inputFocused := True\<rparr>"
    by (simp add: performLookup_def Let_def)
  with assms show ?thesis by (simp add: showError_fields)
qed

lemma performLookup_starts:
  assumes "isValidBarcode (trim (inputValue w))" and "\<not> isLookingUp w"
  shows "requests (performLookup h w) = requests w @ [getCardBalanceRequest h (trim (inputValue w))]
    \<and> inFlight (performLookup h w) = Suc (inFlight w)
    \<and> isLookingUp (performLookup h w)
    \<and> currentBarcode (performLookup h w) = Some (trim (inputValue w))"
proof -
  have "performLookup h w =
      fetch (getCardBalanceRequest h (trim (inputValue w)))
        ((setLookupState True w)\<lparr>currentBarcode := Some (trim (inputValue w))\<rparr>)"
    using assms valid_not_empty [OF assms(1)] by (simp add: performLookup_def Let_def)
  then show ?thesis by (simp add: ui_defs Let_def)
qed

lemma setLookupState_fields:
  "requests (setLookupState b w) = requests w"
  "inFlight (setLookupState b w) = inFlight w"
  "errorMessage (setLookupState b w) = errorMessage w"
  "errorHidden (setLookupState False w) = errorHidden w"
  "isLookingUp (setLookupState b w) = b"
  by (simp_all add: ui_defs Let_def)

lemma showSuccess_fields:
  "requests (snd (showSuccess h d w)) = requests w"
  "inFlight (snd (showSuccess h d w)) = inFlight w"
  by (simp_all add: showSuccess_def hideAllSections_def Let_def split: sum.splits)

lemma handleResult_fields:
  "requests (snd (handleResult h r w)) = requests w"
  "inFlight (snd (handleResult h r w)) = inFlight w"
  by (simp_all add: handleResult_def showSuccess_fields showError_fields split: sum.splits)

lemma lookupSettles_fields:
  assumes "0 < inFlight w"
  shows "requests (lookupSettles h outcome w) = requests w"
    and "inFlight (lookupSettles h outcome w) = inFlight w - 1"
    and "\<not> isLookingUp (lookupSettles h outcome w)"
proof -
  let ?w0 = "w\<lparr>inFlight := inFlight w - 1\<rparr>"
  let ?r = "case getCardBalanceResult h outcome of
              Inl e \<Rightarrow> (Some e, ?w0) | Inr result \<Rightarrow> handleResult h result ?w0"
  let ?w2 = "case fst ?r of None \<Rightarrow> snd ?r
             | Some e \<Rightarrow> showError (ascii ''Network error: '' @ message e) (snd ?r)"
  from assms have "inFlight w \<noteq> 0" by simp
  then have eq: "lookupSettles h outcome w = setLookupState False ?w2"
    unfolding lookupSettles_def Let_def by (rule if_not_P)
  have r: "requests (snd ?r) = requests w \<and> inFlight (snd ?r) = inFlight w - 1"
    by (cases "getCardBalanceResult h outcome") (simp_all add: handleResult_fields)
  have w2: "requests ?w2 = requests w \<and> inFlight ?w2 = inFlight w - 1"
    using r by (cases "fst ?r") (simp_all add: showError_fields)
  from w2 show "requests (lookupSettles h outcome w) = requests w"
    and "inFlight (lookupSettles h outcome w) = inFlight w - 1"
    and "\<not> isLookingUp (lookupSettles h outcome w)"
    unfolding eq by (simp_all add: setLookupState_fields)
qed

lemma lookupSettles_rejected:
  assumes "0 < inFlight w" and "getCardBalanceResult h outcome = Inl e"
  shows "errorMessage (lookupSettles h outcome w) =
           map_option (\<lambda>_. ascii ''Network error: '' @ message e) (errorMessage w)"
    and "\<not> errorHidden (lookupSettles h outcome w)"
  using assms
  by (simp_all add: lookupSettles_def Let_def setLookupState_fields showError_fields)

lemma handleResult_undefined:
  "handleResult h JUndefined w = (Some (TypeError (readOfNullish h JUndefined (ascii ''status''))), w)"
  by (simp add: handleResult_def)

lemma lookupSettles_undefined:
  assumes "0 < inFlight w" and "getCardBalanceResult h outcome = Inr JUndefined"
  shows "errorMessage (lookupSettles h outcome w) =
           map_option (\<lambda>_. ascii ''Network error: '' @ readOfNullish h JUndefined (ascii ''status''))
             (errorMessage w)"
    and "\<not> errorHidden (lookupSettles h outcome w)"
  using assms
  by (simp_all add: lookupSettles_def Let_def setLookupState_fields showError_fields handleResult_undefined)

section \<open>The balance request\<close>

lemma digit_unescaped:
  assumes "isDigit c"
  shows "\<not> isLeadSurrogate c" and "\<not> isTrailSurrogate c" and "escapeUnit c = [c]"
proof -
  from assms have lo: "0x30 \<le> c" and hi: "c \<le> 0x39" by (simp_all add: isDigit_def)
  have above: "\<And>k :: jschar. 0x39 < k \<Longrightarrow> \<not> k \<le> c"
    using hi by (meson leD order_trans)
  have below: "\<And>k :: jschar. k < 0x30 \<Longrightarrow> c \<noteq> k \<and> \<not> c < k"
    using lo by (meson leD order.strict_trans1 less_le_not_le)
  show "\<not> isLeadSurrogate c" using above [of "0xD800"] by (simp add: isLeadSurrogate_def)
  show "\<not> isTrailSurrogate c" using above [of "0xDC00"] by (simp add: isTrailSurrogate_def)
  have "c \<noteq> 0x5C" using hi by auto
  then show "escapeUnit c = [c]"
    using below [of "0x08"] below [of "0x09"] below [of "0x0A"] below [of "0x0C"] below [of "0x0D"]
      below [of "0x22"] below [of "0x20"]
    by (simp add: escapeUnit_def)
qed

lemma quoteUnits_digits: "list_all isDigit s \<Longrightarrow> quoteUnits s = s"
  by (induction s rule: quoteUnits.induct) (simp_all add: digit_unescaped)

lemma quote_data: "quoteJSONString (ascii ''data'') = [0x22] @ ascii ''data'' @ [0x22]"
  by (simp add: quoteJSONString_def ascii_def escapeUnit_def isLeadSurrogate_def isTrailSurrogate_def)

lemma quote_barcode: "quoteJSONString (ascii ''barcode'') = [0x22] @ ascii ''barcode'' @ [0x22]"
  by (simp add: quoteJSONString_def ascii_def escapeUnit_def isLeadSurrogate_def isTrailSurrogate_def)

lemma request_body:
  assumes "list_all isDigit barcode"
  shows \<open>body (getCardBalanceRequest h barcode) = Some (ascii ''{"data":{"barcode":"'' @ barcode @ ascii ''"}}'')\<close>
proof -
  have "quoteJSONString barcode = [0x22] @ barcode @ [0x22]"
    using assms by (simp add: quoteJSONString_def quoteUnits_digits)
  then show ?thesis
    by (simp add: getCardBalanceRequest_def quote_data quote_barcode) (simp add: ascii_def)
qed

lemma lookingUp_fields:
  "inFlight lookingUp = 1"
  "requests lookingUp = [getCardBalanceRequest sampleHost (ascii ''1234567890123456'')]"
  "errorMessage lookingUp = Some []"
  "isLookingUp lookingUp"
  "inputValue lookingUp = ascii ''1234567890123456''"
proof -
  let ?b = "ascii ''1234567890123456''"
  define w1 where "w1 = step sampleHost loaded (Edit ?b)"
  have 1: "w1 = loaded\<lparr>inputValue := ?b, timers := [(1, 500, AutoLookup)], timerCount := 1\<rparr>"
    by (simp add: w1_def loaded_def handler_defs ui_defs replace_NonDigit barcode_facts Let_def)
  have "lookingUp = step sampleHost w1 PressEnter"
    by (simp add: lookingUp_def run_def w1_def)
  also have "\<dots> = performLookup sampleHost w1"
    by (simp add: 1 loaded_def handleBarcodeKeypress_def)
  finally have l: "lookingUp = performLookup sampleHost w1" .
  have v: "isValidBarcode (trim (inputValue w1))" "\<not> isLookingUp w1" "requests w1 = []" "inFlight w1 = 0"
    "errorMessage w1 = Some []" "trim (inputValue w1) = ?b"
    by (simp_all add: 1 barcode_facts loaded_def)
  from performLookup_starts [OF v(1,2), of sampleHost] v
  show "inFlight lookingUp = 1"
    and "requests lookingUp = [getCardBalanceRequest sampleHost ?b]"
    and "isLookingUp lookingUp"
    unfolding l by simp_all
  have "performLookup sampleHost w1 =
      fetch (getCardBalanceRequest sampleHost ?b) ((setLookupState True w1)\<lparr>currentBarcode := Some ?b\<rparr>)"
    using v by (simp add: performLookup_def Let_def barcode_facts)
  then show "errorMessage lookingUp = Some []" and "inputValue lookingUp = ?b"
    unfolding l by (simp_all add: ui_defs Let_def 1 loaded_def)
qed

text \<open>
  C3. For a barcode of 16 digits \<open>getCardBalance\<close> sends one POST request to the balance
  endpoint, with a JSON body that wraps the barcode; \<open>performLookup\<close> on a valid input with
  no lookup pending sends exactly that request. The \<open>result\<close> member of the parsed response
  is returned as it is. A rejected \<open>fetch\<close> and a body that is not JSON are thrown to the
  caller; \<open>performLookup\<close> then sends no further request and shows
  \<open>Network error:\<close> followed by the message of the error.
\<close>

theorem getCardBalance_contract:
  assumes "isValidBarcode barcode"
  shows \<open>getCardBalanceRequest h barcode =
            \<lparr>url = ascii ''https://europe-west1-community-card-dev.cloudfunctions.net/getCardBalance'',
             httpMethod = ascii ''POST'',
             contentType = ascii ''application/json'',
             body = Some (ascii ''{"data":{"barcode":"'' @ barcode @ ascii ''"}}'')\<rparr>
         \<and> (trim (inputValue w) = barcode \<and> \<not> isLookingUp w \<longrightarrow>
               requests (performLookup h w) = requests w @ [getCardBalanceRequest h barcode]
               \<and> inFlight (performLookup h w) = Suc (inFlight w))
         \<and> (map_of kvs (ascii ''result'') = Some result \<longrightarrow>
               getCardBalanceResult h (BodyJson (JObject kvs)) = Inr result)
         \<and> getCardBalanceResult h (FetchRejected e) = Inl e
         \<and> getCardBalanceResult h (BodyNotJson e) = Inl e
         \<and> (0 < inFlight w' \<and> (outcome = FetchRejected e \<or> outcome = BodyNotJson e) \<longrightarrow>
               requests (lookupSettles h outcome w') = requests w'
               \<and> inFlight (lookupSettles h outcome w') = inFlight w' - 1
               \<and> errorMessage (lookupSettles h outcome w') =
                   map_option (\<lambda>_. ascii ''Network error: '' @ message e) (errorMessage w')
               \<and> \<not> errorHidden (lookupSettles h outcome w'))\<close>
proof (intro conjI impI)
  from assms have digits: "list_all isDigit barcode" by (simp add: isValidBarcode_digits)
  have "getCardBalanceRequest h barcode =
      \<lparr>url = url (getCardBalanceRequest h barcode), httpMethod = httpMethod (getCardBalanceRequest h barcode),
       contentType = contentType (getCardBalanceRequest h barcode),
       body = body (getCardBalanceRequest h barcode)\<rparr>"
    by simp
  also have "\<dots> = \<lparr>url = ascii ''https://europe-west1-community-card-dev.cloudfunctions.net/getCardBalance'',
       httpMethod = ascii ''POST'', contentType = ascii ''application/json'',
       body = body (getCardBalanceRequest h barcode)\<rparr>"
    by (simp add: getCardBalanceRequest_def)
  finally show \<open>getCardBalanceRequest h barcode =
            \<lparr>url = ascii ''https://europe-west1-community-card-dev.cloudfunctions.net/getCardBalance'',
             httpMethod = ascii ''POST'',
             contentType = ascii ''application/json'',
             body = Some (ascii ''{"data":{"barcode":"'' @ barcode @ ascii ''"}}'')\<rparr>\<close>
    by (simp only: request_body [OF digits])
next
  assume a: "trim (inputValue w) = barcode \<and> \<not> isLookingUp w"
  with assms have "isValidBarcode (trim (inputValue w))" "\<not> isLookingUp w" by simp_all
  from performLookup_starts [OF this, of h] a
  show "requests (performLookup h w) = requests w @ [getCardBalanceRequest h barcode]"
    and "inFlight (performLookup h w) = Suc (inFlight w)"
    by simp_all
next
  assume "map_of kvs (ascii ''result'') = Some result"
  then show "getCardBalanceResult h (BodyJson (JObject kvs)) = Inr result"
    by (simp add: getCardBalanceResult_def)
next
  show "getCardBalanceResult h (FetchRejected e) = Inl e"
    and "getCardBalanceResult h (BodyNotJson e) = Inl e"
    by (simp_all add: getCardBalanceResult_def)
next
  assume a: "0 < inFlight w' \<and> (outcome = FetchRejected e \<or> outcome = BodyNotJson e)"
  then have pending: "0 < inFlight w'" and rejected: "getCardBalanceResult h outcome = Inl e"
    by (auto simp add: getCardBalanceResult_def)
  from lookupSettles_fields [OF pending]
  show "requests (lookupSettles h outcome w') = requests w'"
    and "inFlight (lookupSettles h outcome w') = inFlight w' - 1"
    by simp_all
  from lookupSettles_rejected [OF pending rejected]
  show "errorMessage (lookupSettles h outcome w') =
      map_option (\<lambda>_. ascii ''Network error: '' @ message e) (errorMessage w')"
    and "\<not> errorHidden (lookupSettles h outcome w')"
    by simp_all
qed


theorem getCardBalance_contract_witness:
  \<open>isValidBarcode (ascii ''1234567890123456'')
   \<and> body (getCardBalanceRequest sampleHost (ascii ''1234567890123456''))
       = Some (ascii ''{"data":{"barcode":"1234567890123456"}}'')
   \<and> trim (inputValue (loaded\<lparr>inputValue := ascii ''1234567890123456''\<rparr>)) = ascii ''1234567890123456''
   \<and> \<not> isLookingUp (loaded\<lparr>inputValue := ascii ''1234567890123456''\<rparr>)
   \<and> requests (performLookup sampleHost (loaded\<lparr>inputValue := ascii ''1234567890123456''\<rparr>))
       = [getCardBalanceRequest sampleHost (ascii ''1234567890123456'')]
   \<and> map_of [(ascii ''result'', JObject [(ascii ''status'', JString (ascii ''card_not_found''))])]
         (ascii ''result'') = Some (JObject [(ascii ''status'', JString (ascii ''card_not_found''))])
   \<and> getCardBalanceResult sampleHost
         (BodyJson (JObject [(ascii ''result'', JObject [(ascii ''status'', JString (ascii ''card_not_found''))])]))
       = Inr (JObject [(ascii ''status'', JString (ascii ''card_not_found''))])
   \<and> 0 < inFlight lookingUp
   \<and> requests (lookupSettles sampleHost (FetchRejected (TypeError (ascii ''Failed to fetch''))) lookingUp)
       = requests lookingUp
   \<and> inFlight (lookupSettles sampleHost (FetchRejected (TypeError (ascii ''Failed to fetch''))) lookingUp) = 0
   \<and> errorMessage (lookupSettles sampleHost (FetchRejected (TypeError (ascii ''Failed to fetch''))) lookingUp)
       = Some (ascii ''Network error: Failed to fetch'')
   \<and> errorMessage (lookupSettles sampleHost (BodyNotJson (SyntaxError (ascii ''Unexpected token''))) lookingUp)
       = Some (ascii ''Network error: Unexpected token'')\<close>
proof -
  let ?b = "ascii ''1234567890123456''"
  let ?r = "JObject [(ascii ''status'', JString (ascii ''card_not_found''))]"
  let ?e = "TypeError (ascii ''Failed to fetch'')"
  let ?s = "SyntaxError (ascii ''Unexpected token'')"
  have valid: "isValidBarcode ?b" by (rule barcode_facts)
  have idle: "trim (inputValue (loaded\<lparr>inputValue := ?b\<rparr>)) = ?b"
    "\<not> isLookingUp (loaded\<lparr>inputValue := ?b\<rparr>)" "requests (loaded\<lparr>inputValue := ?b\<rparr>) = []"
    by (simp_all add: barcode_facts loaded_def)
  have member: "map_of [(ascii ''result'', ?r)] (ascii ''result'') = Some ?r" by simp
  have pending: "0 < inFlight lookingUp" by (simp add: lookingUp_fields)
  note t1 = getCardBalance_contract [OF valid, of sampleHost "loaded\<lparr>inputValue := ?b\<rparr>"
      "[(ascii ''result'', ?r)]" ?r ?e lookingUp "FetchRejected ?e"]
  note t2 = getCardBalance_contract [OF valid, of sampleHost "loaded\<lparr>inputValue := ?b\<rparr>"
      "[(ascii ''result'', ?r)]" ?r ?s lookingUp "BodyNotJson ?s"]
  from t1 have 1: \<open>body (getCardBalanceRequest sampleHost ?b) = Some (ascii ''{"data":{"barcode":"'' @ ?b @ ascii ''"}}'')\<close>
    by simp
  have 2: \<open>ascii ''{"data":{"barcode":"'' @ ?b @ ascii ''"}}'' = ascii ''{"data":{"barcode":"1234567890123456"}}''\<close>
    by (simp add: ascii_def)
  from t1 idle have 3: "requests (performLookup sampleHost (loaded\<lparr>inputValue := ?b\<rparr>))
      = [getCardBalanceRequest sampleHost ?b]"
    by simp
  from t1 member have 4: "getCardBalanceResult sampleHost (BodyJson (JObject [(ascii ''result'', ?r)])) = Inr ?r"
    by blast
  from t1 pending have 5: "requests (lookupSettles sampleHost (FetchRejected ?e) lookingUp) = requests lookingUp"
    "inFlight (lookupSettles sampleHost (FetchRejected ?e) lookingUp) = 0"
    "errorMessage (lookupSettles sampleHost (FetchRejected ?e) lookingUp)
       = Some (ascii ''Network error: '' @ ascii ''Failed to fetch'')"
    by (simp_all add: lookingUp_fields)
  from t2 pending have 6: "errorMessage (lookupSettles sampleHost (BodyNotJson ?s) lookingUp)
       = Some (ascii ''Network error: '' @ ascii ''Unexpected token'')"
    by (simp add: lookingUp_fields)
  have 7: "ascii ''Network error: '' @ ascii ''Failed to fetch'' = ascii ''Network error: Failed to fetch''"
    "ascii ''Network error: '' @ ascii ''Unexpected token'' = ascii ''Network error: Unexpected token''"
    by (simp_all add: ascii_def)
  from valid idle member pending 1 2 3 4 5 6 7 show ?thesis by (simp only: simp_thms)
qed

lemma not_unexpected:
  "ascii ''Network error: '' @ m \<noteq> ascii ''Unexpected response from server''"
  by (simp add: ascii_def)

text \<open>
  C10. When the response parses to a JSON object without a \<open>result\<close> member,
  \<open>getCardBalance\<close> returns \<open>undefined\<close>, reading \<open>result.status\<close> throws a TypeError, and the
  lookup ends with \<open>Network error:\<close> and the message of that TypeError in the error
  section, not with \<open>Unexpected response from server\<close>.
\<close>

theorem missing_result_reported_as_network_error:
  assumes "map_of kvs (ascii ''result'') = None" and "0 < inFlight w"
  shows "getCardBalanceResult h (BodyJson (JObject kvs)) = Inr JUndefined
     \<and> handleResult h JUndefined w0 = (Some (TypeError (readOfNullish h JUndefined (ascii ''status''))), w0)
     \<and> errorMessage (lookupSettles h (BodyJson (JObject kvs)) w) =
          map_option (\<lambda>_. ascii ''Network error: '' @ readOfNullish h JUndefined (ascii ''status''))
            (errorMessage w)
     \<and> errorMessage (lookupSettles h (BodyJson (JObject kvs)) w)
          \<noteq> Some (ascii ''Unexpected response from server'')
     \<and> \<not> errorHidden (lookupSettles h (BodyJson (JObject kvs)) w)
     \<and> \<not> isLookingUp (lookupSettles h (BodyJson (JObject kvs)) w)"
proof -
  from assms(1) have undefined: "getCardBalanceResult h (BodyJson (JObject kvs)) = Inr JUndefined"
    by (simp add: getCardBalanceResult_def)
  note shown = lookupSettles_undefined [OF assms(2) undefined]
  have "errorMessage (lookupSettles h (BodyJson (JObject kvs)) w)
      \<noteq> Some (ascii ''Unexpected response from server'')"
    unfolding shown(1) by (cases "errorMessage w") (simp_all add: not_unexpected)
  with undefined shown lookupSettles_fields(3) [OF assms(2)] handleResult_undefined
  show ?thesis by simp
qed

theorem missing_result_witness:
  "map_of [(ascii ''error'', JString (ascii ''internal''))] (ascii ''result'') = None
   \<and> 0 < inFlight lookingUp
   \<and> getCardBalanceResult sampleHost (BodyJson (JObject [(ascii ''error'', JString (ascii ''internal''))]))
       = Inr JUndefined
   \<and> errorMessage (lookupSettles sampleHost (BodyJson (JObject [(ascii ''error'', JString (ascii ''internal''))])) lookingUp)
       = Some (ascii ''Network error: Cannot read properties of undefined (reading '' @ [0x27]
               @ ascii ''status'' @ [0x27] @ ascii '')'')
   \<and> \<not> errorHidden (lookupSettles sampleHost (BodyJson (JObject [(ascii ''error'', JString (ascii ''internal''))])) lookingUp)"
proof -
  let ?kvs = "[(ascii ''error'', JString (ascii ''internal''))]"
  have absent: "map_of ?kvs (ascii ''result'') = None" by (simp add: ascii_def)
  have pending: "0 < inFlight lookingUp" by (simp add: lookingUp_fields)
  note t = missing_result_reported_as_network_error [OF absent pending, of sampleHost]
  have m: "ascii ''Network error: '' @ readOfNullish sampleHost JUndefined (ascii ''status'')
      = ascii ''Network error: Cannot read properties of undefined (reading '' @ [0x27]
               @ ascii ''status'' @ [0x27] @ ascii '')''"
    by (simp add: sampleHost_def ascii_def)
  from t have "errorMessage (lookupSettles sampleHost (BodyJson (JObject ?kvs)) lookingUp)
      = Some (ascii ''Network error: '' @ readOfNullish sampleHost JUndefined (ascii ''status''))"
    by (simp add: lookingUp_fields)
  with t absent pending m show ?thesis by simp
qed

section \<open>Currency formatting\<close>

lemma pow2_powi: "pow2 e = 2 powi e"
  by (simp add: pow2_def power_int_def inverse_eq_divide power_divide)

lemma pow2_pos: "0 < pow2 e"
  by (simp add: pow2_powi)

lemma pow2_mono: "i \<le> j \<Longrightarrow> pow2 i \<le> pow2 j"
  by (simp add: pow2_powi power_int_increasing)

lemma pow2_strict_mono: "i < j \<Longrightarrow> pow2 i < pow2 j"
  by (simp add: pow2_powi power_int_strict_increasing)

lemma pow2_le_imp_le: "pow2 i \<le> pow2 j \<Longrightarrow> i \<le> j"
  using pow2_strict_mono [of j i] by (cases "i \<le> j") auto

lemma pow2_less_imp_less: "pow2 i < pow2 j \<Longrightarrow> i < j"
  using pow2_mono [of j i] by (cases "i < j") auto

lemma pow2_add: "pow2 (i + j) = pow2 i * pow2 j"
  by (simp add: pow2_powi power_int_add)

lemma pow2_nat: "0 \<le> e \<Longrightarrow> pow2 e = of_int (2 ^ nat e)"
  by (simp add: pow2_def)

lemma bitlen_bounds:
  "0 < n \<Longrightarrow> 1 \<le> bitlen n \<and> 2 ^ nat (bitlen n - 1) \<le> n \<and> n < 2 ^ nat (bitlen n)"
proof (induction n rule: bitlen.induct)
  case (1 n)
  from "1.prems" have unfold: "bitlen n = 1 + bitlen (n div 2)"
    by (subst bitlen.simps) simp
  show ?case
  proof (cases "0 < n div 2")
    case False
    with "1.prems" have "n = 1" by linarith
    then have "bitlen n = 1" by (subst bitlen.simps, subst bitlen.simps) simp
    with \<open>n = 1\<close> show ?thesis by simp
  next
    case True
    with "1.IH" "1.prems" have ih: "1 \<le> bitlen (n div 2)"
      "2 ^ nat (bitlen (n div 2) - 1) \<le> n div 2" "n div 2 < 2 ^ nat (bitlen (n div 2))"
      by simp_all
    let ?k = "bitlen (n div 2)"
    have e1: "nat (bitlen n - 1) = Suc (nat (?k - 1))" using ih(1) unfold by simp
    have e2: "nat (bitlen n) = Suc (nat ?k)" using ih(1) unfold by simp
    have "(2::int) ^ nat (bitlen n - 1) = 2 * 2 ^ nat (?k - 1)" by (simp add: e1)
    also have "\<dots> \<le> 2 * (n div 2)" using ih(2) by simp
    also have "\<dots> \<le> n" by simp
    finally have lower: "2 ^ nat (bitlen n - 1) \<le> n" .
    have "n < 2 * (n div 2) + 2" by linarith
    also have "\<dots> \<le> 2 * 2 ^ nat ?k" using ih(3) by simp
    also have "\<dots> = 2 ^ nat (bitlen n)" by (simp add: e2)
    finally have upper: "n < 2 ^ nat (bitlen n)" .
    from unfold ih(1) lower upper show ?thesis by simp
  qed
qed

lemma ilog2_bounds:
  assumes "0 < a"
  shows "pow2 (ilog2 a) \<le> a" and "a < pow2 (ilog2 a + 1)"
proof -
  have "pow2 (ilog2 a) \<le> a \<and> a < pow2 (ilog2 a + 1)"
  proof (cases "1 \<le> a")
    case True
    let ?n = "\<lfloor>a\<rfloor>"
    from True have n: "0 < ?n" by simp
    note b = bitlen_bounds [OF n]
    from True have l: "ilog2 a = bitlen ?n - 1" by (simp add: ilog2_def)
    have "pow2 (ilog2 a) = of_int (2 ^ nat (bitlen ?n - 1))"
      using b l by (simp add: pow2_nat)
    also have "\<dots> \<le> of_int ?n" using b by (simp only: of_int_le_iff)
    also have "\<dots> \<le> a" by simp
    finally have lower: "pow2 (ilog2 a) \<le> a" .
    from b have "?n + 1 \<le> 2 ^ nat (bitlen ?n)" by simp
    then have le: "(of_int (?n + 1) :: rat) \<le> of_int (2 ^ nat (bitlen ?n))" by (simp only: of_int_le_iff)
    have "a < of_int (?n + 1)" by linarith
    also note le
    also have "of_int (2 ^ nat (bitlen ?n)) = pow2 (ilog2 a + 1)"
      using b l by (simp add: pow2_nat)
    finally have "a < pow2 (ilog2 a + 1)" .
    with lower show ?thesis by simp
  next
    case False
    let ?m = "\<lceil>1 / a\<rceil>"
    let ?k = "bitlen (?m - 1)"
    from False assms have inv: "1 < 1 / a" by simp
    then have m: "0 < ?m - 1" by linarith
    note b = bitlen_bounds [OF m]
    from False have l: "ilog2 a = - ?k" by (simp add: ilog2_def)
    have p: "pow2 (- ?k) = 1 / of_int (2 ^ nat ?k)"
      using b by (simp add: pow2_def)
    from b have mk: "?m \<le> 2 ^ nat ?k" by simp
    have "1 / a \<le> of_int ?m" by simp
    also have "\<dots> \<le> of_int (2 ^ nat ?k)" using mk by (simp only: of_int_le_iff)
    finally have "1 / a \<le> of_int (2 ^ nat ?k)" .
    then have "1 \<le> of_int (2 ^ nat ?k) * a" using assms by (simp add: field_simps)
    then have lower: "pow2 (ilog2 a) \<le> a" unfolding l p by (simp add: field_simps)
    have q: "pow2 (- ?k + 1) = 1 / of_int (2 ^ nat (?k - 1))"
    proof (cases "?k = 1")
      case True
      then show ?thesis by (simp add: pow2_def)
    next
      case False
      with b have "1 < ?k" by simp
      then show ?thesis by (simp add: pow2_def)
    qed
    from b have "(of_int (2 ^ nat (?k - 1)) :: rat) \<le> of_int (?m - 1)" by (simp only: of_int_le_iff)
    also have "of_int (?m - 1) < 1 / a" by linarith
    finally have "of_int (2 ^ nat (?k - 1)) < 1 / a" .
    then have "of_int (2 ^ nat (?k - 1)) * a < 1" using assms by (simp add: field_simps)
    then have "a < pow2 (ilog2 a + 1)" unfolding l q by (simp add: field_simps)
    with lower show ?thesis by simp
  qed
  then show "pow2 (ilog2 a) \<le> a" and "a < pow2 (ilog2 a + 1)" by simp_all
qed


lemma roundHalfEven_error: "\<bar>of_int (roundHalfEven y) - y\<bar> \<le> 1 / 2"
proof -
  have "of_int \<lfloor>y\<rfloor> \<le> y" and "y < of_int \<lfloor>y\<rfloor> + 1" by linarith+
  then show ?thesis by (auto simp add: roundHalfEven_def Let_def)
qed

lemma roundHalfEven_of_int: "roundHalfEven (of_int k) = k"
  by (simp add: roundHalfEven_def)

lemma roundHalfEven_ge_one:
  assumes "1 \<le> y"
  shows "1 \<le> roundHalfEven y"
proof -
  from assms have "1 \<le> \<lfloor>y\<rfloor>" by simp
  then show ?thesis by (simp add: roundHalfEven_def Let_def)
qed

lemma roundToDouble_minus: "roundToDouble (- q) = - roundToDouble q"
  by (simp add: roundToDouble_def Let_def sgn_minus)

lemma roundToDouble_error:
  assumes "q \<noteq> 0"
  shows "\<bar>roundToDouble q - q\<bar> \<le> pow2 (max (ilog2 \<bar>q\<bar> - 52) (- 1074)) / 2"
proof -
  define p where "p = pow2 (max (ilog2 \<bar>q\<bar> - 52) (- 1074))"
  define y where "y = \<bar>q\<bar> / p"
  define m :: rat where "m = of_int (roundHalfEven y)"
  have p: "0 < p" unfolding p_def by (rule pow2_pos)
  have r: "roundToDouble q = sgn q * m * p"
    using assms by (simp add: roundToDouble_def Let_def p_def y_def m_def)
  have yp: "y * p = \<bar>q\<bar>" using p by (simp add: y_def)
  have "q = sgn q * \<bar>q\<bar>" by (simp only: sgn_mult_abs)
  also have "\<dots> = sgn q * (y * p)" by (simp only: yp)
  finally have "roundToDouble q - q = sgn q * m * p - sgn q * (y * p)"
    unfolding r by simp
  also have "\<dots> = sgn q * ((m - y) * p)" by (simp only: algebra_simps)
  finally have "\<bar>roundToDouble q - q\<bar> = \<bar>sgn q\<bar> * (\<bar>m - y\<bar> * \<bar>p\<bar>)"
    by (simp only: abs_mult)
  also have "\<bar>sgn q\<bar> = 1" using assms by (simp add: abs_sgn_eq)
  also have "\<bar>p\<bar> = p" using p by simp
  finally have "\<bar>roundToDouble q - q\<bar> = \<bar>m - y\<bar> * p" by simp
  also have "\<dots> \<le> 1 / 2 * p"
    using roundHalfEven_error [of y] p unfolding m_def by (intro mult_right_mono) simp_all
  finally show ?thesis unfolding p_def by simp
qed

lemma roundToDouble_pos:
  assumes "1 / 100 \<le> q"
  shows "0 < roundToDouble q"
proof -
  from assms have q: "0 < q" by simp
  let ?l = "ilog2 q"
  note b = ilog2_bounds [OF q]
  have "pow2 (- 7) < 1 / 100" by (simp add: pow2_def)
  also have "\<dots> \<le> q" by (rule assms)
  also have "\<dots> < pow2 (?l + 1)" by (rule b)
  finally have "- 7 < ?l + 1" by (rule pow2_less_imp_less)
  then have e: "max (?l - 52) (- 1074) = ?l - 52" by simp
  have split: "pow2 ?l = pow2 (?l - 52) * pow2 52"
    using pow2_add [of "?l - 52" 52] by simp
  have "1 \<le> pow2 52" by (simp add: pow2_def)
  also have "\<dots> = pow2 ?l / pow2 (?l - 52)" using pow2_pos [of "?l - 52"] by (simp add: split)
  also have "\<dots> \<le> q / pow2 (?l - 52)"
    using b(1) pow2_pos [of "?l - 52"] by (simp add: divide_right_mono)
  finally have "1 \<le> roundHalfEven (q / pow2 (?l - 52))" by (rule roundHalfEven_ge_one)
  then have "0 < (of_int (roundHalfEven (q / pow2 (?l - 52))) :: rat)" by simp
  then have "0 < of_int (roundHalfEven (q / pow2 (?l - 52))) * pow2 (?l - 52)"
    using pow2_pos [of "?l - 52"] by simp
  then show ?thesis using q e by (simp add: roundToDouble_def Let_def)
qed

lemma divideBy100_close:
  assumes "\<bar>n\<bar> \<le> 7036874417766400"
  shows "\<bar>divideBy100 (of_int n) * 100 - of_int n\<bar> < 1 / 2"
proof (cases "n = 0")
  case True
  then show ?thesis by (simp add: divideBy100_def roundToDouble_def)
next
  case False
  let ?q = "of_int n / 100 :: rat"
  let ?a = "\<bar>?q\<bar>"
  let ?l = "ilog2 ?a"
  from False have q: "?q \<noteq> 0" and a: "0 < ?a" by simp_all
  have "?a = of_int \<bar>n\<bar> / 100" by simp
  also have "\<dots> \<le> of_int 7036874417766400 / 100"
  proof (rule divide_right_mono)
    show "(of_int \<bar>n\<bar> :: rat) \<le> of_int 7036874417766400"
      using assms by (simp only: of_int_le_iff)
    show "(0::rat) \<le> 100" by simp
  qed
  also have "\<dots> = pow2 46" by (simp add: pow2_def)
  finally have top: "?a \<le> pow2 46" .
  note b = ilog2_bounds [OF a]
  from b(1) top have "pow2 ?l \<le> pow2 46" by simp
  then have l: "?l \<le> 46" by (rule pow2_le_imp_le)
  have exact_or_close: "\<bar>roundToDouble ?q - ?q\<bar> \<le> 1 / 256"
  proof (cases "?l = 46")
    case True
    with b(1) top have eq: "?a = pow2 46" by simp
    have e: "max (?l - 52) (- 1074) = - 6" using True by simp
    have y: "?a / pow2 (- 6) = of_int 4503599627370496"
      unfolding eq by (simp add: pow2_def)
    have "roundToDouble ?q = sgn ?q * of_int (roundHalfEven (?a / pow2 (- 6))) * pow2 (- 6)"
      using q e by (simp add: roundToDouble_def Let_def)
    also have "\<dots> = sgn ?q * of_int 4503599627370496 * pow2 (- 6)"
      unfolding y roundHalfEven_of_int ..
    also have "of_int 4503599627370496 * pow2 (- 6) = ?a"
      unfolding eq by (simp add: pow2_def)
    then have "sgn ?q * of_int 4503599627370496 * pow2 (- 6) = sgn ?q * ?a"
      by (simp add: mult.assoc)
    also have "\<dots> = ?q" by (simp only: sgn_mult_abs)
    finally show ?thesis by simp
  next
    case False
    with l have "max (?l - 52) (- 1074) \<le> - 7" by simp
    then have "pow2 (max (?l - 52) (- 1074)) \<le> pow2 (- 7)" by (rule pow2_mono)
    also have "\<dots> = 1 / 128" by (simp add: pow2_def)
    finally have "pow2 (max (?l - 52) (- 1074)) / 2 \<le> 1 / 256" by simp
    with roundToDouble_error [OF q] show ?thesis by simp
  qed
  define x where "x = roundToDouble ?q"
  have d: "divideBy100 (of_int n) = x" by (simp add: divideBy100_def x_def)
  have "x * 100 - of_int n = (x - ?q) * 100" by (simp add: algebra_simps)
  then have "\<bar>x * 100 - of_int n\<bar> = \<bar>x - ?q\<bar> * \<bar>100\<bar>" by (simp only: abs_mult)
  then have "\<bar>divideBy100 (of_int n) * 100 - of_int n\<bar> = \<bar>roundToDouble ?q - ?q\<bar> * 100"
    unfolding d unfolding x_def by simp
  also have "\<dots> \<le> 1 / 256 * 100" using exact_or_close by (intro mult_right_mono) simp_all
  also have "\<dots> < 1 / 2" by simp
  finally show ?thesis .
qed


lemma roundHalfEven_nonneg:
  assumes "0 \<le> y"
  shows "0 \<le> roundHalfEven y"
proof -
  from assms have "0 \<le> \<lfloor>y\<rfloor>" by simp
  then show ?thesis by (simp add: roundHalfEven_def Let_def)
qed

lemma roundToDouble_nonneg:
  assumes "0 \<le> q"
  shows "0 \<le> roundToDouble q"
proof (cases "q = 0")
  case True
  then show ?thesis by (simp add: roundToDouble_def)
next
  case False
  let ?p = "pow2 (max (ilog2 \<bar>q\<bar> - 52) (- 1074))"
  have "0 \<le> \<bar>q\<bar> / ?p" using pow2_pos [of "max (ilog2 \<bar>q\<bar> - 52) (- 1074)"] by simp
  then have "0 \<le> roundHalfEven (\<bar>q\<bar> / ?p)" by (rule roundHalfEven_nonneg)
  then have "0 \<le> (of_int (roundHalfEven (\<bar>q\<bar> / ?p)) :: rat) * ?p"
    using pow2_pos [of "max (ilog2 \<bar>q\<bar> - 52) (- 1074)"] by simp
  with False assms show ?thesis by (simp add: roundToDouble_def Let_def)
qed

lemma divideBy100_minus: "divideBy100 (- c) = - divideBy100 c"
  using roundToDouble_minus [of "c / 100"] by (simp add: divideBy100_def)

lemma digitsOf_small: "n < 10 \<Longrightarrow> digitsOf n = [digitChar n]"
  by (subst digitsOf.simps) simp

lemma digitsOf_step: "10 \<le> n \<Longrightarrow> digitsOf n = digitsOf (n div 10) @ [digitChar (n mod 10)]"
  by (subst digitsOf.simps) simp

lemma digitsOf_nonempty: "digitsOf n \<noteq> []"
  by (subst digitsOf.simps) simp

lemma toFixed_negative: "x < 0 \<Longrightarrow> toFixed h f x = [0x2D] @ toFixed h f (- x)"
  by (simp add: toFixed_def Let_def)

lemma toFixed_two:
  assumes "0 \<le> x" and "x < 10 ^ 21" and "\<lfloor>x * 100 + 1 / 2\<rfloor> = k" and "0 \<le> k"
  shows "toFixed h 2 x = digitsOf (k div 100) @ [0x2E, digitChar (k mod 100 div 10), digitChar (k mod 10)]"
proof -
  let ?m = "digitsOf k"
  let ?len = "length ?m"
  have unfold: "toFixed h 2 x =
      take ((if ?len \<le> 2 then 3 else ?len) - 2) (if ?len \<le> 2 then replicate (3 - ?len) 0x30 @ ?m else ?m)
      @ [0x2E]
      @ drop ((if ?len \<le> 2 then 3 else ?len) - 2) (if ?len \<le> 2 then replicate (3 - ?len) 0x30 @ ?m else ?m)"
    using assms(1,2,3) by (simp add: toFixed_def Let_def)
  consider "k < 10" | "10 \<le> k" "k < 100" | "100 \<le> k" by linarith
  then show ?thesis
  proof cases
    case 1
    with assms(4) have "k div 100 = 0" "k mod 100 div 10 = 0" "k mod 10 = k" by simp_all
    moreover have "digitsOf k = [digitChar k]" using 1 by (rule digitsOf_small)
    moreover have "digitsOf 0 = [0x30]" by (simp add: digitsOf_small digitChar_def)
    moreover have "digitChar 0 = 0x30" by (simp add: digitChar_def)
    ultimately show ?thesis unfolding unfold by (simp add: numeral_3_eq_3)
  next
    case 2
    then have "k div 10 < 10" by simp
    then have "digitsOf (k div 10) = [digitChar (k div 10)]" by (rule digitsOf_small)
    with 2 have d: "digitsOf k = [digitChar (k div 10), digitChar (k mod 10)]"
      by (simp add: digitsOf_step)
    from 2 have "k div 100 = 0" "k mod 100 div 10 = k div 10" by simp_all
    moreover have "digitsOf 0 = [0x30]" by (simp add: digitsOf_small digitChar_def)
    ultimately show ?thesis unfolding unfold d by (simp add: numeral_3_eq_3)
  next
    case 3
    then have "10 \<le> k" and "10 \<le> k div 10" by simp_all
    then have "digitsOf k = (digitsOf (k div 10 div 10) @ [digitChar (k div 10 mod 10)]) @ [digitChar (k mod 10)]"
      by (simp add: digitsOf_step)
    moreover have "k div 10 div 10 = k div 100"
      using zdiv_zmult2_eq [of 10 k 10] by simp
    moreover have "k div 10 mod 10 = k mod 100 div 10"
    proof -
      have "k mod 100 = 10 * (k div 10 mod 10) + k mod 10"
        using zmod_zmult2_eq [of 10 k 10] by simp
      moreover have "0 \<le> k mod 10" "k mod 10 < 10" by simp_all
      ultimately show ?thesis by simp
    qed
    ultimately have d: "digitsOf k = digitsOf (k div 100) @ [digitChar (k mod 100 div 10), digitChar (k mod 10)]"
      by simp
    have "digitsOf (k div 100) \<noteq> []" by (rule digitsOf_nonempty)
    then have len: "\<not> length (digitsOf (k div 100)) + 2 \<le> 2" by simp
    show ?thesis unfolding unfold unfolding d using len by simp
  qed
qed

lemma formatCurrency_nonneg:
  assumes "0 \<le> n" and "n \<le> 7036874417766400"
  shows "toFixed h 2 (divideBy100 (of_int n)) =
           digitsOf (n div 100) @ [0x2E, digitChar (n mod 100 div 10), digitChar (n mod 10)]"
proof -
  define x where "x = divideBy100 (of_int n)"
  from assms have "\<bar>n\<bar> \<le> 7036874417766400" by simp
  from divideBy100_close [OF this] have close: "\<bar>x * 100 - of_int n\<bar> < 1 / 2"
    by (simp add: x_def)
  have nonneg: "0 \<le> x"
    unfolding x_def divideBy100_def using assms(1) by (intro roundToDouble_nonneg) simp
  have "(of_int n :: rat) \<le> of_int 7036874417766400" using assms(2) by (simp only: of_int_le_iff)
  with close have "x * 100 < 7036874417766401" by linarith
  moreover have "(10 :: rat) ^ 21 = 1000000000000000000000" by simp
  ultimately have small: "x < 10 ^ 21" by linarith
  have "\<lfloor>x * 100 + 1 / 2\<rfloor> = n"
    using close by (intro floor_unique) linarith+
  from toFixed_two [OF nonneg small this assms(1)] show ?thesis by (simp add: x_def)
qed

lemma formatCurrency_bounded:
  assumes "\<bar>n\<bar> \<le> 7036874417766400"
  shows "formatCurrency h (of_int n) = CURRENCY_SYMBOL @ twoDecimalPlaces n"
proof (cases "n < 0")
  case False
  with assms have "0 \<le> n" "n \<le> 7036874417766400" by simp_all
  from formatCurrency_nonneg [OF this] False show ?thesis
    by (simp add: formatCurrency_def twoDecimalPlaces_def Let_def)
next
  case True
  with assms have pos: "0 \<le> - n" "- n \<le> 7036874417766400" by simp_all
  from True have "(1 :: rat) \<le> of_int (- n)" by (simp only: of_int_1_le_iff)
  then have "1 / 100 \<le> (of_int (- n) :: rat) / 100" by simp
  then have "0 < divideBy100 (of_int (- n))"
    unfolding divideBy100_def by (rule roundToDouble_pos)
  moreover have m: "divideBy100 (of_int n) = - divideBy100 (of_int (- n))"
    using divideBy100_minus [of "of_int (- n)"] by simp
  ultimately have "divideBy100 (of_int n) < 0" by simp
  from toFixed_negative [OF this] have "toFixed h 2 (divideBy100 (of_int n))
      = [0x2D] @ toFixed h 2 (divideBy100 (of_int (- n)))"
    using m by simp
  with formatCurrency_nonneg [OF pos] True show ?thesis
    by (simp add: formatCurrency_def twoDecimalPlaces_def Let_def)
qed

lemma formatCurrency_negative:
  assumes "n < 0"
  shows "formatCurrency h (of_int n) = CURRENCY_SYMBOL @ [0x2D] @ drop 1 (formatCurrency h (of_int (- n)))"
proof -
  from assms have "(1 :: rat) \<le> of_int (- n)" by (simp only: of_int_1_le_iff)
  then have "1 / 100 \<le> (of_int (- n) :: rat) / 100" by simp
  then have "0 < divideBy100 (of_int (- n))"
    unfolding divideBy100_def by (rule roundToDouble_pos)
  moreover have m: "divideBy100 (of_int n) = - divideBy100 (of_int (- n))"
    using divideBy100_minus [of "of_int (- n)"] by simp
  ultimately have "divideBy100 (of_int n) < 0" by simp
  from toFixed_negative [OF this] have "toFixed h 2 (divideBy100 (of_int n))
      = [0x2D] @ toFixed h 2 (divideBy100 (of_int (- n)))"
    using m by simp
  then show ?thesis by (simp add: formatCurrency_def CURRENCY_SYMBOL_def Let_def)
qed

lemma rendered_examples:
  "CURRENCY_SYMBOL @ twoDecimalPlaces 1234 = 0x20AC # ascii ''12.34''"
  "CURRENCY_SYMBOL @ twoDecimalPlaces 0 = 0x20AC # ascii ''0.00''"
  "CURRENCY_SYMBOL @ twoDecimalPlaces 100000 = 0x20AC # ascii ''1000.00''"
  "CURRENCY_SYMBOL @ twoDecimalPlaces (- 1234) = 0x20AC # ascii ''-12.34''"
  "CURRENCY_SYMBOL @ twoDecimalPlaces 7036874417766400 = 0x20AC # ascii ''70368744177664.00''"
  "CURRENCY_SYMBOL @ twoDecimalPlaces 7036874417766401 = 0x20AC # ascii ''70368744177664.01''"
  by code_simp+

text \<open>
  C2 (as amended). For every integer amount of at most 7036874417766400 minor units in
  absolute value (100 times 2 to the 46th), \<open>formatCurrency\<close> yields the symbol followed by
  the amount divided by 100, in decimal notation with exactly two decimal places: the
  rounding of the division to a binary64 value never reaches the second decimal. 1234
  gives \<open>12.34\<close>, 0 gives \<open>0.00\<close> and 100000 gives \<open>1000.00\<close>, each after the symbol.
\<close>

theorem formatCurrency_two_decimals:
  assumes "\<bar>n\<bar> \<le> 7036874417766400"
  shows "formatCurrency h (of_int n) = CURRENCY_SYMBOL @ twoDecimalPlaces n
     \<and> formatCurrency h 1234 = 0x20AC # ascii ''12.34''
     \<and> formatCurrency h 0 = 0x20AC # ascii ''0.00''
     \<and> formatCurrency h 100000 = 0x20AC # ascii ''1000.00''"
proof -
  from assms have general: "formatCurrency h (of_int n) = CURRENCY_SYMBOL @ twoDecimalPlaces n"
    by (rule formatCurrency_bounded)
  have "formatCurrency h (of_int 1234) = 0x20AC # ascii ''12.34''"
    by (subst formatCurrency_bounded) (simp_all add: rendered_examples)
  moreover have "formatCurrency h (of_int 0) = 0x20AC # ascii ''0.00''"
    by (subst formatCurrency_bounded) (simp_all add: rendered_examples)
  moreover have "formatCurrency h (of_int 100000) = 0x20AC # ascii ''1000.00''"
    by (subst formatCurrency_bounded) (simp_all add: rendered_examples)
  ultimately show ?thesis using general by simp
qed

theorem formatCurrency_two_decimals_witness:
  "\<bar>7036874417766400 :: int\<bar> \<le> 7036874417766400
   \<and> formatCurrency sampleHost 7036874417766400 = 0x20AC # ascii ''70368744177664.00''
   \<and> \<bar>500 :: int\<bar> \<le> 7036874417766400
   \<and> formatCurrency sampleHost 500 = 0x20AC # ascii ''5.00''"
proof -
  have b: "\<bar>7036874417766400 :: int\<bar> \<le> 7036874417766400" "\<bar>500 :: int\<bar> \<le> 7036874417766400"
    by simp_all
  have r: "CURRENCY_SYMBOL @ twoDecimalPlaces 500 = 0x20AC # ascii ''5.00''" by code_simp
  from formatCurrency_two_decimals [OF b(1), of sampleHost]
  have 1: "formatCurrency sampleHost 7036874417766400 = 0x20AC # ascii ''70368744177664.00''"
    by (simp add: rendered_examples)
  from formatCurrency_two_decimals [OF b(2), of sampleHost]
  have 2: "formatCurrency sampleHost 500 = 0x20AC # ascii ''5.00''"
    by (simp add: r)
  from b 1 2 show ?thesis by simp
qed

text \<open>
  C2 as stated, for every integer amount, fails at the first amount past that bound: the
  quotient of 7036874417766401 by 100 is rounded to the binary64 value
  70368744177664.015625, which \<open>toFixed(2)\<close> prints as \<open>70368744177664.02\<close>.
\<close>

theorem formatCurrency_counterexample:
  "formatCurrency sampleHost 7036874417766401 = 0x20AC # ascii ''70368744177664.02''
   \<and> formatCurrency sampleHost 7036874417766401 \<noteq> CURRENCY_SYMBOL @ twoDecimalPlaces 7036874417766401"
proof -
  have "formatCurrency sampleHost 7036874417766401 = 0x20AC # ascii ''70368744177664.02''"
    by code_simp
  moreover have "(0x20AC :: jschar) # ascii ''70368744177664.02'' \<noteq> 0x20AC # ascii ''70368744177664.01''"
    by (simp add: ascii_def)
  ultimately show ?thesis by (simp add: rendered_examples)
qed

text \<open>
  C9. For every negative integer amount the result is the currency symbol, then the
  minus sign, then what follows the symbol in the result for the amount without its sign;
  \<open>formatCurrency(-1234)\<close> is the symbol followed by \<open>-12.34\<close>.
\<close>

theorem formatCurrency_negative_sign:
  assumes "n < 0"
  shows "formatCurrency h (of_int n) = CURRENCY_SYMBOL @ [0x2D] @ drop 1 (formatCurrency h (of_int (- n)))
     \<and> formatCurrency h (- 1234) = 0x20AC # ascii ''-12.34''"
proof -
  have "formatCurrency h (of_int (- 1234)) = 0x20AC # ascii ''-12.34''"
    by (subst formatCurrency_bounded) (simp_all add: rendered_examples)
  with formatCurrency_negative [OF assms, of h] show ?thesis by simp
qed

theorem formatCurrency_negative_sign_witness:
  "(- 5 :: int) < 0
   \<and> formatCurrency sampleHost (- 5) = CURRENCY_SYMBOL @ [0x2D] @ drop 1 (formatCurrency sampleHost 5)
   \<and> formatCurrency sampleHost (- 5) = 0x20AC # ascii ''-0.05''"
proof -
  have n: "(- 5 :: int) < 0" by simp
  from formatCurrency_negative_sign [OF n, of sampleHost]
  have 1: "formatCurrency sampleHost (- 5) = CURRENCY_SYMBOL @ [0x2D] @ drop 1 (formatCurrency sampleHost 5)"
    by simp
  have 2: "formatCurrency sampleHost 5 = 0x20AC # ascii ''0.05''" by code_simp
  have 3: "CURRENCY_SYMBOL @ [0x2D] @ drop 1 (0x20AC # ascii ''0.05'') = 0x20AC # ascii ''-0.05''"
    by (simp add: CURRENCY_SYMBOL_def ascii_def)
  from n 1 2 3 show ?thesis by simp
qed

end
